theory Spec2Isabelle
  imports
    Main
    "HOL-Library.Word"
    "HOL-Library.Multiset"
    "HOL-Library.Char_ord"
    "HOL-Library.List_Lexorder"
    "HOL-Library.Product_Lexorder"
begin

chapter \<open>Component reconciler: orchestrator configuration and readiness tracker\<close>

text \<open>
  A shallow embedding of \<^verbatim>\<open>pkg/compreconciler/reconciler.go\<close> (package
  \<^verbatim>\<open>compreconciler\<close>: configuration, validation, the HTTP trigger) and of the
  readiness predicates of package \<^verbatim>\<open>progress\<close> (deployments, stateful sets,
  custom resource definitions, replica-set selection).

  Conventions. A Go \<^verbatim>\<open>error\<close> is its message; the \<^verbatim>\<open>nil\<close> error is
  \<open>None\<close>. A Go result \<^verbatim>\<open>(x, err)\<close> is a pair whose second component is an
  \<open>error option\<close>; a pointer that may be \<^verbatim>\<open>nil\<close> is an \<open>option\<close>.
  \<^verbatim>\<open>int\<close>, \<^verbatim>\<open>int64\<close> and \<^verbatim>\<open>time.Duration\<close> are 64-bit words,
  \<^verbatim>\<open>int32\<close> is a 32-bit word; order comparisons on them are the signed ones.
\<close>

type_synonym error = string
type_synonym go_int = "64 word"
type_synonym int32 = "32 word"
type_synonym Duration = "64 word"

section \<open>Orchestrator configuration (reconciler.go)\<close>

text \<open>\<^verbatim>\<open>time.Second\<close>: a duration counts nanoseconds.\<close>

definition Second :: Duration where
  "Second = 1000000000"

definition paramContractVersion :: string where
  "paramContractVersion = ''version''"

definition defaultServerPort :: go_int where
  "defaultServerPort = 8080"

definition defaultMaxRetries :: go_int where
  "defaultMaxRetries = 5"

definition defaultUpdateInterval :: Duration where
  "defaultUpdateInterval = 30 * Second"

definition defaultRetryDelay :: Duration where
  "defaultRetryDelay = 30 * Second"

text \<open>
  The \<^verbatim>\<open>Action\<close> interface, \<^verbatim>\<open>Run(version, kubeClient) error\<close>. An action is
  external code with effects on the cluster; what the orchestrator sees of it is the error
  it returns, which may differ from one invocation to the next. An action is therefore a
  function of the number of the attempt that invokes it and of the version.
\<close>

type_synonym Action = "nat \<Rightarrow> string \<Rightarrow> error option"

record serverOpts =
  port :: go_int
  sslCrtFile :: string
  sslKeyFile :: string

text \<open>
  \<^verbatim>\<open>ComponentReconciler\<close>. The field \<^verbatim>\<open>chartProvider\<close> (a pointer to the
  external chart provider) is read by none of the functions embedded here and is left out.
\<close>

record ComponentReconciler =
  debug :: bool
  serverOpts :: serverOpts
  preInstallAction :: "Action option"
  installAction :: "Action option"
  postInstallAction :: "Action option"
  updateInterval :: Duration
  maxRetries :: go_int
  retryDelay :: Duration
  interval :: Duration
  timeout :: Duration

text \<open>\<^verbatim>\<open>NewComponentReconciler\<close>: every field has Go's zero value.\<close>

definition NewComponentReconciler :: ComponentReconciler where
  "NewComponentReconciler =
     \<lparr> debug = False,
       serverOpts = \<lparr> port = 0, sslCrtFile = [], sslKeyFile = [] \<rparr>,
       preInstallAction = None, installAction = None, postInstallAction = None,
       updateInterval = 0, maxRetries = 0, retryDelay = 0, interval = 0, timeout = 0 \<rparr>"

text \<open>\<^verbatim>\<open>validate\<close>: four guarded assignments, in the order of the source.\<close>

definition validate :: "ComponentReconciler \<Rightarrow> ComponentReconciler" where
  "validate r0 =
    (let r1 = (if updateInterval r0 \<le>s 0
               then r0\<lparr>updateInterval := defaultUpdateInterval\<rparr> else r0);
         r2 = (if maxRetries r1 \<le>s 0
               then r1\<lparr>maxRetries := defaultMaxRetries\<rparr> else r1);
         r3 = (if port (serverOpts r2) \<le>s 0
               then r2\<lparr>serverOpts := (serverOpts r2)\<lparr>port := defaultServerPort\<rparr>\<rparr> else r2);
         r4 = (if retryDelay r3 \<le>s 0
               then r3\<lparr>retryDelay := defaultRetryDelay\<rparr> else r3)
     in r4)"

definition Configure ::
  "ComponentReconciler \<Rightarrow> Duration \<Rightarrow> go_int \<Rightarrow> Duration \<Rightarrow> ComponentReconciler" where
  "Configure r ui mr rd = r\<lparr>updateInterval := ui, maxRetries := mr, retryDelay := rd\<rparr>"

definition WithServerConfiguration ::
  "ComponentReconciler \<Rightarrow> go_int \<Rightarrow> string \<Rightarrow> string \<Rightarrow> ComponentReconciler" where
  "WithServerConfiguration r p crt key =
     r\<lparr>serverOpts := \<lparr> port = p, sslCrtFile = crt, sslKeyFile = key \<rparr>\<rparr>"

section \<open>Readiness tracker (package progress)\<close>

subsection \<open>Custom resource definitions\<close>

text \<open>
  The condition types and statuses are string types of the API packages
  \<^verbatim>\<open>apiextensions/v1\<close> and \<^verbatim>\<open>apiextensions/v1beta1\<close>; the two packages
  declare the same four string constants. Of a condition only its type and its status are
  read; of a definition only the conditions of its status.
\<close>

definition apiextv1_Established :: string where
  "apiextv1_Established = ''Established''"

definition apiextv1_NamesAccepted :: string where
  "apiextv1_NamesAccepted = ''NamesAccepted''"

definition apiextv1_ConditionTrue :: string where
  "apiextv1_ConditionTrue = ''True''"

definition apiextv1_ConditionFalse :: string where
  "apiextv1_ConditionFalse = ''False''"

definition apiextv1beta1_Established :: string where
  "apiextv1beta1_Established = ''Established''"

definition apiextv1beta1_NamesAccepted :: string where
  "apiextv1beta1_NamesAccepted = ''NamesAccepted''"

definition apiextv1beta1_ConditionTrue :: string where
  "apiextv1beta1_ConditionTrue = ''True''"

definition apiextv1beta1_ConditionFalse :: string where
  "apiextv1beta1_ConditionFalse = ''False''"

record CRDCondition =
  cond_Type :: string
  cond_Status :: string

record CustomResourceDefinition =
  crd_Conditions :: "CRDCondition list"

record CRDConditionBeta =
  condb_Type :: string
  condb_Status :: string

record CustomResourceDefinitionBeta =
  crdb_Conditions :: "CRDConditionBeta list"

text \<open>
  The loop of \<^verbatim>\<open>crdBetaReady\<close> over the conditions: the \<^verbatim>\<open>switch\<close> takes the
  first case whose constant equals the type; a case that does not return falls out of the
  \<^verbatim>\<open>switch\<close> to the next condition.
\<close>

fun crdBetaReady_loop :: "CRDConditionBeta list \<Rightarrow> bool" where
  "crdBetaReady_loop [] = False"
| "crdBetaReady_loop (cond # conds) =
     (if condb_Type cond = apiextv1beta1_Established then
        (if condb_Status cond = apiextv1beta1_ConditionTrue then True
         else crdBetaReady_loop conds)
      else if condb_Type cond = apiextv1beta1_NamesAccepted then
        (if condb_Status cond = apiextv1beta1_ConditionFalse then True
         else crdBetaReady_loop conds)
      else crdBetaReady_loop conds)"

definition crdBetaReady :: "CustomResourceDefinitionBeta \<Rightarrow> bool" where
  "crdBetaReady crd = crdBetaReady_loop (crdb_Conditions crd)"

fun crdReady_loop :: "CRDCondition list \<Rightarrow> bool" where
  "crdReady_loop [] = False"
| "crdReady_loop (cond # conds) =
     (if cond_Type cond = apiextv1_Established then
        (if cond_Status cond = apiextv1_ConditionTrue then True
         else crdReady_loop conds)
      else if cond_Type cond = apiextv1_NamesAccepted then
        (if cond_Status cond = apiextv1_ConditionFalse then True
         else crdReady_loop conds)
      else crdReady_loop conds)"

definition crdReady :: "CustomResourceDefinition \<Rightarrow> bool" where
  "crdReady crd = crdReady_loop (crd_Conditions crd)"

subsection \<open>Objects of the cluster\<close>

text \<open>
  Modelled from the spec: \<^verbatim>\<open>trackerResource\<close>, declared elsewhere in package
  \<^verbatim>\<open>progress\<close> (a tracked resource identifies one object by kind, namespace and
  name); the predicates embedded here read its namespace and its name.
\<close>

record trackerResource =
  tr_namespace :: string
  tr_name :: string

text \<open>
  A \<^verbatim>\<open>metav1.Time\<close> is compared by \<^verbatim>\<open>Equal\<close> and \<^verbatim>\<open>Before\<close>, which
  compare instants; it is modelled by its instant. Both arguments are addresses of fields
  here, never \<^verbatim>\<open>nil\<close>.
\<close>

type_synonym Time = int

definition Time_Equal :: "Time \<Rightarrow> Time \<Rightarrow> bool" where
  "Time_Equal t u = (t = u)"

definition Time_Before :: "Time \<Rightarrow> Time \<Rightarrow> bool" where
  "Time_Before t u = (t < u)"

text \<open>
  A pod template: the label map of its metadata, and everything else of it (the other
  metadata, the pod specification) as one value \<open>'spec\<close> compared structurally. A Go map
  is a partial function; the \<^verbatim>\<open>nil\<close> map and the empty map are both the empty
  function, and the semantic equality of the API machinery does not tell them apart.
\<close>

record 'spec PodTemplateSpec =
  Labels :: "string \<rightharpoonup> string"
  PodSpec :: 'spec

record OwnerReference =
  ref_UID :: string
  ref_Controller :: "bool option"

text \<open>
  A replica set: \<^verbatim>\<open>Name\<close>, \<^verbatim>\<open>CreationTimestamp\<close> and
  \<^verbatim>\<open>OwnerReferences\<close> of its metadata, \<^verbatim>\<open>Spec.Template\<close> and
  \<^verbatim>\<open>Status.ReadyReplicas\<close>.
\<close>

record 'spec ReplicaSet =
  rs_Name :: string
  rs_CreationTimestamp :: Time
  rs_OwnerReferences :: "OwnerReference list"
  rs_Template :: "'spec PodTemplateSpec"
  rs_ReadyReplicas :: int32

text \<open>
  A deployment: \<^verbatim>\<open>Namespace\<close> and \<^verbatim>\<open>UID\<close> of its metadata,
  \<^verbatim>\<open>Spec.Selector\<close> (of a type \<open>'sel\<close> that only the library's conversion reads)
  and \<^verbatim>\<open>Spec.Template\<close>.
\<close>

record ('spec, 'sel) Deployment =
  d_Namespace :: string
  d_UID :: string
  d_Selector :: 'sel
  d_Template :: "'spec PodTemplateSpec"

text \<open>
  A stateful set: \<^verbatim>\<open>Spec.Replicas\<close> and
  \<^verbatim>\<open>Spec.UpdateStrategy.RollingUpdate\<close> (both pointers, the latter to a struct
  whose \<^verbatim>\<open>Partition\<close> is a pointer again), \<^verbatim>\<open>Status.UpdatedReplicas\<close> and
  \<^verbatim>\<open>Status.ReadyReplicas\<close>.
\<close>

record RollingUpdateStatefulSetStrategy =
  Partition :: "int32 option"

record StatefulSet =
  ss_Replicas :: "int32 option"
  ss_RollingUpdate :: "RollingUpdateStatefulSetStrategy option"
  ss_UpdatedReplicas :: int32
  ss_ReadyReplicas :: int32

text \<open>
  What the predicates ask of the outside: the reads of the typed client
  (\<^verbatim>\<open>Deployments(ns).Get\<close>, \<^verbatim>\<open>StatefulSets(ns).Get\<close>,
  \<^verbatim>\<open>ReplicaSets(ns).List\<close> with a label selector), each returning an error or the
  object, and the library function \<^verbatim>\<open>metav1.LabelSelectorAsSelector\<close>, which
  returns an error or a selector (kept as the string that \<^verbatim>\<open>String()\<close> renders).
\<close>

record ('spec, 'sel) Clientset =
  Deployments_Get :: "string \<Rightarrow> string \<Rightarrow> error + ('spec, 'sel) Deployment"
  StatefulSets_Get :: "string \<Rightarrow> string \<Rightarrow> error + StatefulSet"
  ReplicaSets_List :: "string \<Rightarrow> string \<Rightarrow> error + 'spec ReplicaSet list"
  LabelSelectorAsSelector :: "'sel \<Rightarrow> error + string"

subsection \<open>Stateful sets\<close>

text \<open>
  \<^verbatim>\<open>isStatefulSetReady\<close>. \<^verbatim>\<open>int(x)\<close> of an \<^verbatim>\<open>int32\<close> is the sign
  extension \<open>scast\<close>; the subtraction is the one of \<^verbatim>\<open>int\<close>.
\<close>

definition isStatefulSetReady ::
  "('spec, 'sel) Clientset \<Rightarrow> trackerResource \<Rightarrow> bool \<times> error option" where
  "isStatefulSetReady client object =
    (case StatefulSets_Get client (tr_namespace object) (tr_name object) of
       Inl err \<Rightarrow> (False, Some err)
     | Inr statefulSet \<Rightarrow>
        (let partition :: go_int =
               (case ss_RollingUpdate statefulSet of
                  None \<Rightarrow> 0
                | Some ru \<Rightarrow> (case Partition ru of None \<Rightarrow> 0 | Some p \<Rightarrow> scast p));
             replicas :: go_int =
               (case ss_Replicas statefulSet of None \<Rightarrow> 1 | Some n \<Rightarrow> scast n);
             expectedReplicas = replicas - partition
         in if scast (ss_UpdatedReplicas statefulSet) \<noteq> expectedReplicas then (False, None)
            else (scast (ss_ReadyReplicas statefulSet) = replicas, None)))"

text \<open>
  The two local variables of \<^verbatim>\<open>isStatefulSetReady\<close>, as the function computes
  them, and the numbers they stand for: the replica count of the specification (1 when the
  pointer is \<^verbatim>\<open>nil\<close>) and the partition of the rolling update (0 when either
  pointer is \<^verbatim>\<open>nil\<close>).
\<close>

definition go_replicas :: "StatefulSet \<Rightarrow> go_int" where
  "go_replicas s = (case ss_Replicas s of None \<Rightarrow> 1 | Some n \<Rightarrow> scast n)"

definition go_partition :: "StatefulSet \<Rightarrow> go_int" where
  "go_partition s =
     (case ss_RollingUpdate s of
        None \<Rightarrow> 0
      | Some ru \<Rightarrow> (case Partition ru of None \<Rightarrow> 0 | Some p \<Rightarrow> scast p))"

definition replicas_of :: "StatefulSet \<Rightarrow> int" where
  "replicas_of s = (case ss_Replicas s of None \<Rightarrow> 1 | Some n \<Rightarrow> sint n)"

definition partition_of :: "StatefulSet \<Rightarrow> int" where
  "partition_of s =
     (case ss_RollingUpdate s of
        None \<Rightarrow> 0
      | Some ru \<Rightarrow> (case Partition ru of None \<Rightarrow> 0 | Some p \<Rightarrow> sint p))"

subsection \<open>Deployments and the selection of the current replica set\<close>

definition expectedReadyReplicas :: int32 where
  "expectedReadyReplicas = 1"

text \<open>\<^verbatim>\<open>appsv1.DefaultDeploymentUniqueLabelKey\<close>, the label the controller injects.\<close>

definition DefaultDeploymentUniqueLabelKey :: string where
  "DefaultDeploymentUniqueLabelKey = ''pod-template-hash''"

text \<open>
  \<^verbatim>\<open>metav1.IsControlledBy\<close>: the controller reference of an object is its first owner
  reference whose \<^verbatim>\<open>Controller\<close> pointer is set and points to \<^verbatim>\<open>true\<close>; the
  object is controlled by the owner when that reference carries the owner's UID.
\<close>

fun GetControllerOfNoCopy :: "OwnerReference list \<Rightarrow> OwnerReference option" where
  "GetControllerOfNoCopy [] = None"
| "GetControllerOfNoCopy (r # refs) =
     (if ref_Controller r = Some True then Some r else GetControllerOfNoCopy refs)"

definition IsControlledBy :: "'spec ReplicaSet \<Rightarrow> ('spec, 'sel) Deployment \<Rightarrow> bool" where
  "IsControlledBy obj owner =
     (case GetControllerOfNoCopy (rs_OwnerReferences obj) of
        None \<Rightarrow> False
      | Some r \<Rightarrow> ref_UID r = d_UID owner)"

text \<open>
  \<^verbatim>\<open>equalIgnoreHash\<close> on values. A value is its own deep copy, and the semantic
  deep equality of two templates is the equality of their values; \<^verbatim>\<open>delete\<close> removes
  a key from a map and does nothing when the key is absent.
\<close>

definition DeepCopy :: "'spec PodTemplateSpec \<Rightarrow> 'spec PodTemplateSpec" where
  "DeepCopy t = t"

definition delete :: "(string \<rightharpoonup> string) \<Rightarrow> string \<Rightarrow> (string \<rightharpoonup> string)" where
  "delete m k = m(k := None)"

definition DeepEqual :: "'spec PodTemplateSpec \<Rightarrow> 'spec PodTemplateSpec \<Rightarrow> bool" where
  "DeepEqual a b = (a = b)"

definition equalIgnoreHash :: "'spec PodTemplateSpec \<Rightarrow> 'spec PodTemplateSpec \<Rightarrow> bool" where
  "equalIgnoreHash template1 template2 =
    (let t1Copy = DeepCopy template1;
         t2Copy = DeepCopy template2;
         t1Copy = t1Copy\<lparr>Labels := delete (Labels t1Copy) DefaultDeploymentUniqueLabelKey\<rparr>;
         t2Copy = t2Copy\<lparr>Labels := delete (Labels t2Copy) DefaultDeploymentUniqueLabelKey\<rparr>
     in DeepEqual t1Copy t2Copy)"

text \<open>
  \<^verbatim>\<open>replicaSetsByCreationTimestamp\<close>: the three methods of
  \<^verbatim>\<open>sort.Interface\<close> on a slice of replica sets.
\<close>

definition Len :: "'spec ReplicaSet list \<Rightarrow> nat" where
  "Len rs = length rs"

definition Swap :: "'spec ReplicaSet list \<Rightarrow> nat \<Rightarrow> nat \<Rightarrow> 'spec ReplicaSet list" where
  "Swap rs i j = rs[i := rs ! j, j := rs ! i]"

definition Less :: "'spec ReplicaSet list \<Rightarrow> nat \<Rightarrow> nat \<Rightarrow> bool" where
  "Less rs i j =
     (if Time_Equal (rs_CreationTimestamp (rs ! i)) (rs_CreationTimestamp (rs ! j))
      then rs_Name (rs ! i) < rs_Name (rs ! j)
      else Time_Before (rs_CreationTimestamp (rs ! i)) (rs_CreationTimestamp (rs ! j)))"

text \<open>
  \<^verbatim>\<open>sort.Sort\<close> is the standard library's, and it is not stable: which algorithm
  it runs, and so where it leaves elements neither of which is \<^verbatim>\<open>Less\<close> than
  the other, depends on the length of the slice and on the version of the library. The
  functions that call it therefore take it as a parameter \<open>sort_Sort\<close> (the content of
  the slice before, to its content after), and what is known of it is its contract: it
  changes the slice through \<^verbatim>\<open>Swap\<close> only, so the result is a permutation of the
  slice, and in the result no later element is \<^verbatim>\<open>Less\<close> than an earlier one.
\<close>

definition sort_contract :: "('spec ReplicaSet list \<Rightarrow> 'spec ReplicaSet list) \<Rightarrow> bool" where
  "sort_contract srt =
     (\<forall>rs. mset (srt rs) = mset rs \<and>
           (\<forall>i j. i < j \<and> j < Len (srt rs) \<longrightarrow> \<not> Less (srt rs) j i))"

text \<open>
  One sort that meets the contract, for concrete inputs: the library's insertion sort (the
  routine that \<^verbatim>\<open>sort.Sort\<close> runs on a slice of at most twelve elements),
  through \<^verbatim>\<open>Less\<close> and \<^verbatim>\<open>Swap\<close> only:
  \<^verbatim>\<open>for i := 1; i < n; i++ { for j := i; j > 0 && Less(j, j-1); j-- { Swap(j, j-1) } }\<close>.
  Both indices stay below the length.
\<close>

fun insertionSort_inner :: "'spec ReplicaSet list \<Rightarrow> nat \<Rightarrow> 'spec ReplicaSet list" where
  "insertionSort_inner rs 0 = rs"
| "insertionSort_inner rs (Suc j) =
     (if Less rs (Suc j) j then insertionSort_inner (Swap rs (Suc j) j) j else rs)"

definition insertionSort :: "'spec ReplicaSet list \<Rightarrow> 'spec ReplicaSet list" where
  "insertionSort rs = fold (\<lambda>i rs. insertionSort_inner rs i) [1 ..< Len rs] rs"

text \<open>
  Two functions for reasoning about sorts: \<^verbatim>\<open>Less\<close> as a relation between
  two replica sets, and the insertion of an element into a list that holds a sorted prefix
  in reverse (the inner loop moves the element at \<open>j\<close> to the left past every element
  it is \<^verbatim>\<open>Less\<close> than).
\<close>

definition LessE :: "'spec ReplicaSet \<Rightarrow> 'spec ReplicaSet \<Rightarrow> bool" where
  "LessE a b = (if Time_Equal (rs_CreationTimestamp a) (rs_CreationTimestamp b)
      then rs_Name a < rs_Name b
      else Time_Before (rs_CreationTimestamp a) (rs_CreationTimestamp b))"

fun insl :: "'spec ReplicaSet \<Rightarrow> 'spec ReplicaSet list \<Rightarrow> 'spec ReplicaSet list" where
  "insl x [] = [x]"
| "insl x (y # ys) = (if LessE x y then y # insl x ys else x # y # ys)"

text \<open>The scan of \<^verbatim>\<open>findNewReplicaSet\<close>: the first element that matches.\<close>

fun findNewReplicaSet_scan ::
  "('spec, 'sel) Deployment \<Rightarrow> 'spec ReplicaSet list \<Rightarrow> 'spec ReplicaSet option" where
  "findNewReplicaSet_scan deployment [] = None"
| "findNewReplicaSet_scan deployment (r # rsList) =
     (if equalIgnoreHash (rs_Template r) (d_Template deployment) then Some r
      else findNewReplicaSet_scan deployment rsList)"

definition findNewReplicaSet ::
  "('spec ReplicaSet list \<Rightarrow> 'spec ReplicaSet list) \<Rightarrow>
     ('spec, 'sel) Deployment \<Rightarrow> 'spec ReplicaSet list \<Rightarrow> 'spec ReplicaSet option" where
  "findNewReplicaSet sort_Sort deployment rsList =
     findNewReplicaSet_scan deployment (sort_Sort rsList)"

definition getLatestReplicaSet ::
  "('spec ReplicaSet list \<Rightarrow> 'spec ReplicaSet list) \<Rightarrow>
     ('spec, 'sel) Deployment \<Rightarrow> ('spec, 'sel) Clientset \<Rightarrow>
     'spec ReplicaSet option \<times> error option" where
  "getLatestReplicaSet sort_Sort deployment client =
    (case LabelSelectorAsSelector client (d_Selector deployment) of
       Inl err \<Rightarrow> (None, Some err)
     | Inr selector \<Rightarrow>
        (case ReplicaSets_List client (d_Namespace deployment) selector of
           Inl err \<Rightarrow> (None, Some err)
         | Inr allReplicaSets \<Rightarrow>
            (let ownedReplicaSets =
                   filter (\<lambda>rs. IsControlledBy rs deployment) allReplicaSets
             in if length ownedReplicaSets = 0 then (None, None)
                else (findNewReplicaSet sort_Sort deployment ownedReplicaSets, None))))"

definition isDeploymentReady ::
  "('spec ReplicaSet list \<Rightarrow> 'spec ReplicaSet list) \<Rightarrow>
     ('spec, 'sel) Clientset \<Rightarrow> trackerResource \<Rightarrow> bool \<times> error option" where
  "isDeploymentReady sort_Sort client object =
    (case Deployments_Get client (tr_namespace object) (tr_name object) of
       Inl err \<Rightarrow> (False, Some err)
     | Inr deployment \<Rightarrow>
        (case getLatestReplicaSet sort_Sort deployment client of
           (replicaSet, Some err) \<Rightarrow> (False, Some err)
         | (None, None) \<Rightarrow> (False, None)
         | (Some replicaSet, None) \<Rightarrow>
             (expectedReadyReplicas \<le>s rs_ReadyReplicas replicaSet, None)))"

subsection \<open>The comparison of templates on a store of maps\<close>

text \<open>
  Whether \<^verbatim>\<open>equalIgnoreHash\<close> changes its arguments is a question about shared
  objects, so here the label maps live in a store: a Go map is a reference to a cell, the
  \<^verbatim>\<open>nil\<close> map is no reference, and a template holds the reference. The templates
  themselves are reached through pointers that the function only reads. Cells are
  allocated at \<open>next_addr\<close>, upwards.
\<close>

type_synonym addr = nat

record store =
  cells :: "addr \<rightharpoonup> (string \<rightharpoonup> string)"
  next_addr :: addr

record 'spec PodTemplateSpec_ref =
  Labels_ref :: "addr option"
  PodSpec_ref :: 'spec

text \<open>The content of a map reference; the \<^verbatim>\<open>nil\<close> map reads as the empty map.\<close>

definition deref :: "store \<Rightarrow> addr option \<Rightarrow> (string \<rightharpoonup> string)" where
  "deref h ref =
     (case ref of
        None \<Rightarrow> Map.empty
      | Some a \<Rightarrow> (case cells h a of None \<Rightarrow> Map.empty | Some m \<Rightarrow> m))"

text \<open>The template a reference-holding template stands for in a store.\<close>

definition template_of :: "store \<Rightarrow> 'spec PodTemplateSpec_ref \<Rightarrow> 'spec PodTemplateSpec" where
  "template_of h t = \<lparr> Labels = deref h (Labels_ref t), PodSpec = PodSpec_ref t \<rparr>"

text \<open>\<^verbatim>\<open>make\<close> and the copying loop of a generated \<^verbatim>\<open>DeepCopyInto\<close>.\<close>

definition new_map :: "store \<Rightarrow> (string \<rightharpoonup> string) \<Rightarrow> addr \<times> store" where
  "new_map h m =
     (next_addr h, h\<lparr>cells := (cells h)(next_addr h \<mapsto> m), next_addr := Suc (next_addr h)\<rparr>)"

text \<open>
  \<^verbatim>\<open>DeepCopy\<close>: a \<^verbatim>\<open>nil\<close> map stays \<^verbatim>\<open>nil\<close>, any other map is copied
  into a new one; the rest of the template is copied by value.
\<close>

definition DeepCopy_st ::
  "store \<Rightarrow> 'spec PodTemplateSpec_ref \<Rightarrow> 'spec PodTemplateSpec_ref \<times> store" where
  "DeepCopy_st h t =
     (case Labels_ref t of
        None \<Rightarrow> (t, h)
      | Some a \<Rightarrow>
          (let (a', h') = new_map h (deref h (Some a))
           in (t\<lparr>Labels_ref := Some a'\<rparr>, h')))"

text \<open>\<^verbatim>\<open>delete(m, k)\<close>: nothing on a \<^verbatim>\<open>nil\<close> map, else the cell loses the key.\<close>

definition delete_st :: "store \<Rightarrow> addr option \<Rightarrow> string \<Rightarrow> store" where
  "delete_st h ref k =
     (case ref of
        None \<Rightarrow> h
      | Some a \<Rightarrow> h\<lparr>cells := (cells h)(a \<mapsto> (deref h (Some a))(k := None))\<rparr>)"

definition DeepEqual_st ::
  "store \<Rightarrow> 'spec PodTemplateSpec_ref \<Rightarrow> 'spec PodTemplateSpec_ref \<Rightarrow> bool" where
  "DeepEqual_st h a b =
     (deref h (Labels_ref a) = deref h (Labels_ref b) \<and> PodSpec_ref a = PodSpec_ref b)"

definition equalIgnoreHash_st ::
  "store \<Rightarrow> 'spec PodTemplateSpec_ref \<Rightarrow> 'spec PodTemplateSpec_ref \<Rightarrow> bool \<times> store" where
  "equalIgnoreHash_st h template1 template2 =
    (let (t1Copy, h1) = DeepCopy_st h template1;
         (t2Copy, h2) = DeepCopy_st h1 template2;
         h3 = delete_st h2 (Labels_ref t1Copy) DefaultDeploymentUniqueLabelKey;
         h4 = delete_st h3 (Labels_ref t2Copy) DefaultDeploymentUniqueLabelKey
     in (DeepEqual_st h4 t1Copy t2Copy, h4))"

text \<open>
  A store is well formed when there is no cell at \<open>next_addr\<close> or above; a template is
  allocated in it when its map reference, if any, is a cell.
\<close>

definition wf_store :: "store \<Rightarrow> bool" where
  "wf_store h = (\<forall>a. next_addr h \<le> a \<longrightarrow> cells h a = None)"

definition allocated :: "store \<Rightarrow> 'spec PodTemplateSpec_ref \<Rightarrow> bool" where
  "allocated h t = (case Labels_ref t of None \<Rightarrow> True | Some a \<Rightarrow> cells h a \<noteq> None)"

section \<open>The HTTP trigger (reconciler.go)\<close>

text \<open>
  Modelled from the spec: \<^verbatim>\<open>Status\<close>, declared elsewhere in the package: the
  status \<^verbatim>\<open>Running\<close> that the package's tests deliver, one terminal status of
  success and one of failure.
\<close>

datatype Status = Running | Success | Failed

text \<open>
  Modelled from the spec: \<^verbatim>\<open>Reconciliation\<close>, declared elsewhere in the package:
  the callback target (the source reads \<^verbatim>\<open>CallbackURL\<close> and
  \<^verbatim>\<open>CallbackFct\<close>) and the version handed to the actions; the payload of the
  component is not read here.
\<close>

record Reconciliation =
  CallbackURL :: string
  CallbackFct :: "(Status \<Rightarrow> error option) option"
  Version :: string

text \<open>
  A request: the variables the router bound for the route, and what reading the body
  gives (\<^verbatim>\<open>ioutil.ReadAll\<close>: an error or the bytes).
\<close>

record Request =
  req_Vars :: "string \<rightharpoonup> string"
  req_Body :: "error + string"

text \<open>
  A response writer: the status code once the header is written, and the body written so
  far. \<^verbatim>\<open>WriteHeader\<close> after the header is written changes nothing; \<^verbatim>\<open>Write\<close>
  writes the header with code 200 first when none is written. Header fields are left out.
\<close>

record ResponseWriter =
  rw_status :: "nat option"
  rw_body :: string

definition WriteHeader :: "ResponseWriter \<Rightarrow> nat \<Rightarrow> ResponseWriter" where
  "WriteHeader w code = (if rw_status w = None then w\<lparr>rw_status := Some code\<rparr> else w)"

definition Write :: "ResponseWriter \<Rightarrow> string \<Rightarrow> ResponseWriter" where
  "Write w b = (let w' = WriteHeader w 200 in w'\<lparr>rw_body := rw_body w' @ b\<rparr>)"

definition newline :: string where
  "newline = [CHR 0x0A]"

text \<open>\<^verbatim>\<open>http.StatusText\<close>, at the one code the source asks for.\<close>

definition StatusText :: "nat \<Rightarrow> string" where
  "StatusText code = (if code = 500 then ''Internal Server Error'' else [])"

text \<open>\<^verbatim>\<open>http.Error\<close>: writes the header, then the message and a newline.\<close>

definition http_Error :: "ResponseWriter \<Rightarrow> string \<Rightarrow> nat \<Rightarrow> ResponseWriter" where
  "http_Error w msg code = Write (WriteHeader w code) (msg @ newline)"

definition sendError :: "ResponseWriter \<Rightarrow> error \<Rightarrow> ResponseWriter" where
  "sendError w err =
     (let httpCode = 500
      in http_Error w (StatusText httpCode @ newline @ newline @ err) httpCode)"

text \<open>
  What the handler calls outside this file: \<^verbatim>\<open>params.String\<close> of the server
  package, \<^verbatim>\<open>json.Unmarshal\<close> into the model (it returns the model as decoded and
  an error; into a \<^verbatim>\<open>nil\<close> pointer, which \<^verbatim>\<open>modelForVersion\<close> never
  returns without an error, it fails), \<^verbatim>\<open>newRemoteCallbackHandler\<close> and the
  runner's \<^verbatim>\<open>Run\<close>.
\<close>

record 'cbh collaborators =
  params_String :: "Request \<Rightarrow> string \<Rightarrow> error + string"
  json_Unmarshal :: "string \<Rightarrow> Reconciliation \<Rightarrow> Reconciliation \<times> error option"
  newRemoteCallbackHandler :: "string \<Rightarrow> bool \<Rightarrow> 'cbh option \<times> error option"
  runner_Run :: "ComponentReconciler \<Rightarrow> Reconciliation \<Rightarrow> 'cbh option \<Rightarrow> error option"

definition modelForVersion :: "string \<Rightarrow> Reconciliation option \<times> error option" where
  "modelForVersion contractVersion =
     (if contractVersion = [] then (None, Some ''contract version cannot be empty'')
      else (Some \<lparr> CallbackURL = [], CallbackFct = None, Version = [] \<rparr>, None))"

definition model ::
  "'cbh collaborators \<Rightarrow> Request \<Rightarrow> Reconciliation option \<times> error option" where
  "model ext req =
    (case params_String ext req paramContractVersion of
       Inl err \<Rightarrow> (None, Some err)
     | Inr contractVersion \<Rightarrow>
        (case req_Body req of
           Inl err \<Rightarrow> (None, Some err)
         | Inr b \<Rightarrow>
            (case modelForVersion contractVersion of
               (_, Some err) \<Rightarrow> (None, Some err)
             | (None, None) \<Rightarrow>
                (None, Some ''json: Unmarshal(nil *compreconciler.Reconciliation)'')
             | (Some m, None) \<Rightarrow>
                (case json_Unmarshal ext b m of
                   (_, Some err) \<Rightarrow> (None, Some err)
                 | (m', None) \<Rightarrow> (Some m', None)))))"

text \<open>\<^verbatim>\<open>start\<close> hands the run to the runner.\<close>

definition start ::
  "'cbh collaborators \<Rightarrow> ComponentReconciler \<Rightarrow> Reconciliation \<Rightarrow> 'cbh option \<Rightarrow> error option" where
  "start ext r m cbh = runner_Run ext r m cbh"

text \<open>
  The handler that \<^verbatim>\<open>StartRemote\<close> registers. Its result is the response writer
  as the handler leaves it, the runs it started (the arguments of each call of
  \<^verbatim>\<open>start\<close>), and how it ended: it returns, or it panics on reading a field through
  a \<^verbatim>\<open>nil\<close> model. None of the three \<^verbatim>\<open>if err != nil\<close> blocks returns.
\<close>

datatype completion = Returned | Panicked

record 'cbh handled =
  response :: ResponseWriter
  started :: "(Reconciliation \<times> 'cbh option) list"
  completion :: completion

definition handler ::
  "'cbh collaborators \<Rightarrow> ComponentReconciler \<Rightarrow> ResponseWriter \<Rightarrow> Request \<Rightarrow> 'cbh handled" where
  "handler ext r w req =
    (case model ext req of (modelp, err) \<Rightarrow>
      (let w1 = (case err of None \<Rightarrow> w | Some e \<Rightarrow> sendError w e)
       in case modelp of
            None \<Rightarrow> \<lparr> response = w1, started = [], completion = Panicked \<rparr>
          | Some m \<Rightarrow>
             (case newRemoteCallbackHandler ext (CallbackURL m) (debug r) of
                (remoteCbh, err) \<Rightarrow>
                 (let w2 = (case err of None \<Rightarrow> w1 | Some e \<Rightarrow> sendError w1 e);
                      w3 = (case start ext r m remoteCbh of
                              None \<Rightarrow> w2
                            | Some e \<Rightarrow> sendError w2 e)
                  in \<lparr> response = w3, started = [(m, remoteCbh)],
                       completion = Returned \<rparr>))))"

section \<open>The run of the orchestrator\<close>

text \<open>
  The runner (\<^verbatim>\<open>runner.Run\<close>, which \<^verbatim>\<open>start\<close> calls) is defined
  elsewhere in the package; the definitions of this section follow the run algorithm of
  the specification (section 4.2) and its taxonomy of errors (section 7). A run is observed
  through the events it produces, in order: the deliveries to the callback handler (with
  what the handler returned), the invocations of the actions, the readiness waits and the
  delays between attempts.
\<close>

text \<open>
  Modelled from the spec: the data of a run. The stages of the pipeline (section 4.2), the
  causes an attempt can fail with and the terminal error that wraps the last cause
  (section 7: action error, readiness timeout, retries exhausted), the events of a run, the
  callback handler as its one method \<^verbatim>\<open>Callback(status) error\<close> (section 4.1),
  and the state of a run (section 3): its attempt counter, its events, and what it returns.
\<close>

datatype stage = PreInstall | Install | PostInstall

datatype cause = ActionError stage error | ReadinessTimeoutError error

datatype run_error = RetriesExhaustedError "cause option"

datatype event =
    Delivered Status "error option"
  | Invoked stage nat
  | ReadinessWait nat
  | Delayed Duration

type_synonym CallbackHandler = "Status \<Rightarrow> error option"

text \<open>
  The readiness wait of an attempt, as the run sees it: no error when every tracked
  resource became ready within the tracker's timeout, else the timeout error.
\<close>

type_synonym Tracker = "nat \<Rightarrow> error option"

record run =
  attempts :: nat
  events :: "event list"
  returned :: "run_error option"

text \<open>
  Modelled from the spec: one stage of the action pipeline of the runner (section 4.2,
  step 2b): a present action is invoked, an absent action is skipped.
\<close>

definition run_action ::
  "stage \<Rightarrow> Action option \<Rightarrow> nat \<Rightarrow> string \<Rightarrow> event list \<times> cause option" where
  "run_action st a k v =
     (case a of
        None \<Rightarrow> ([], None)
      | Some act \<Rightarrow> ([Invoked st k], map_option (ActionError st) (act k v)))"

text \<open>
  Modelled from the spec: the action pipeline of the runner (section 4.2, step 2b):
  pre-install, install, post-install in order; the first action error aborts the rest of
  the pipeline for this attempt.
\<close>

definition pipeline ::
  "ComponentReconciler \<Rightarrow> nat \<Rightarrow> string \<Rightarrow> event list \<times> cause option" where
  "pipeline r k v =
    (case run_action PreInstall (preInstallAction r) k v of
       (e1, Some c) \<Rightarrow> (e1, Some c)
     | (e1, None) \<Rightarrow>
        (case run_action Install (installAction r) k v of
           (e2, Some c) \<Rightarrow> (e1 @ e2, Some c)
         | (e2, None) \<Rightarrow>
            (case run_action PostInstall (postInstallAction r) k v of
               (e3, res) \<Rightarrow> (e1 @ e2 @ e3, res))))"

text \<open>
  Modelled from the spec: one attempt of the runner (section 4.2, steps 2a to 2c):
  \<open>Running\<close> is delivered before any work of the attempt, a failed delivery does not
  fail the attempt; then the pipeline runs, and when it succeeds, the readiness wait.
\<close>

definition attempt ::
  "ComponentReconciler \<Rightarrow> CallbackHandler \<Rightarrow> Tracker \<Rightarrow> nat \<Rightarrow> string \<Rightarrow>
     event list \<times> cause option" where
  "attempt r cbh tr k v =
    (case pipeline r k v of
       (es, Some c) \<Rightarrow> (Delivered Running (cbh Running) # es, Some c)
     | (es, None) \<Rightarrow>
         (Delivered Running (cbh Running) # es @ [ReadinessWait k],
          map_option ReadinessTimeoutError (tr k)))"

text \<open>
  Modelled from the spec: the retry loop of the runner (section 4.2, steps 2 and 3), with
  \<open>k\<close> attempts made, the cause of the last failure, and \<open>n\<close> attempts remaining:
  success delivers the success status and returns; a failure with attempts remaining waits
  the retry delay and tries again; with no attempt remaining the failure status is
  delivered and the terminating error wraps the last cause.
\<close>

fun attempts_loop ::
  "ComponentReconciler \<Rightarrow> CallbackHandler \<Rightarrow> Tracker \<Rightarrow> string \<Rightarrow>
     nat \<Rightarrow> cause option \<Rightarrow> nat \<Rightarrow> run" where
  "attempts_loop r cbh tr v k lastCause 0 =
     \<lparr> attempts = k, events = [Delivered Failed (cbh Failed)],
       returned = Some (RetriesExhaustedError lastCause) \<rparr>"
| "attempts_loop r cbh tr v k lastCause (Suc n) =
     (case attempt r cbh tr (Suc k) v of
        (es, None) \<Rightarrow>
          \<lparr> attempts = Suc k, events = es @ [Delivered Success (cbh Success)],
            returned = None \<rparr>
      | (es, Some c) \<Rightarrow>
          (let rest = attempts_loop r cbh tr v (Suc k) (Some c) n
           in rest\<lparr>events :=
                es @ (if n = 0 then [] else [Delayed (retryDelay r)]) @ events rest\<rparr>))"

text \<open>
  Modelled from the spec: \<^verbatim>\<open>runner.Run\<close> (section 4.2, steps 1 to 3): the
  configuration defaults are applied, then the attempts are numbered from 1 to
  \<^verbatim>\<open>maxRetries\<close>.
\<close>

definition Run ::
  "ComponentReconciler \<Rightarrow> Tracker \<Rightarrow> Reconciliation \<Rightarrow> CallbackHandler \<Rightarrow> run" where
  "Run r tr m cbh =
     (let r' = validate r
      in attempts_loop r' cbh tr (Version m) 0 None (nat (sint (maxRetries r'))))"

text \<open>
  For the statement of the retry law: the deliveries of \<open>Running\<close> among the events, and
  the events of attempt \<open>i\<close> of \<open>n\<close> when its pipeline fails: the delivery of
  \<open>Running\<close>, the events of the pipeline, and the delay when an attempt remains.
\<close>

fun is_Running_delivery :: "event \<Rightarrow> bool" where
  "is_Running_delivery (Delivered Running res) = True"
| "is_Running_delivery e = False"

definition attempt_events ::
  "ComponentReconciler \<Rightarrow> CallbackHandler \<Rightarrow> string \<Rightarrow> nat \<Rightarrow> nat \<Rightarrow> event list" where
  "attempt_events r cbh v n i =
     Delivered Running (cbh Running) # fst (pipeline r i v) @
       (if i < n then [Delayed (retryDelay r)] else [])"

section \<open>The selection of the current replica set, in the words of the specification\<close>

text \<open>
  The specification's selection: keep the candidates with a controller-owner reference to
  the deployment, sort them by creation timestamp ascending and, at equal timestamps, by
  name ascending, and take the first whose template equals the deployment's once the
  revision-hash label is removed on both sides. Pairs of a timestamp and a name are ordered
  lexicographically; \<open>sort_key\<close> is the stable sort of the library of lists, so among
  candidates that agree in timestamp and name the specification's sort is taken to keep the
  order of the listing.
\<close>

definition selection_key :: "'spec ReplicaSet \<Rightarrow> Time \<times> string" where
  "selection_key r = (rs_CreationTimestamp r, rs_Name r)"

definition matches :: "('spec, 'sel) Deployment \<Rightarrow> 'spec ReplicaSet \<Rightarrow> bool" where
  "matches d r = equalIgnoreHash (rs_Template r) (d_Template d)"

definition owned_candidates ::
  "('spec, 'sel) Deployment \<Rightarrow> 'spec ReplicaSet list \<Rightarrow> 'spec ReplicaSet list" where
  "owned_candidates d candidates = filter (\<lambda>r. IsControlledBy r d) candidates"

definition current_replica_set ::
  "('spec, 'sel) Deployment \<Rightarrow> 'spec ReplicaSet list \<Rightarrow> 'spec ReplicaSet option" where
  "current_replica_set d candidates =
     List.find (matches d) (sort_key selection_key (owned_candidates d candidates))"

section \<open>Concrete inputs\<close>

text \<open>
  A stateful set with three replicas and partition 1, and a client that returns a given
  stateful set for every name.
\<close>

definition example_set :: "int32 \<Rightarrow> int32 \<Rightarrow> StatefulSet" where
  "example_set updated ready =
     \<lparr> ss_Replicas = Some 3, ss_RollingUpdate = Some \<lparr> Partition = Some 1 \<rparr>,
       ss_UpdatedReplicas = updated, ss_ReadyReplicas = ready \<rparr>"

definition example_set_client :: "StatefulSet \<Rightarrow> (unit, unit) Clientset" where
  "example_set_client s =
     \<lparr> Deployments_Get = (\<lambda>ns n. Inl ''not found''),
       StatefulSets_Get = (\<lambda>ns n. Inr s),
       ReplicaSets_List = (\<lambda>ns sel. Inr []),
       LabelSelectorAsSelector = (\<lambda>sel. Inr []) \<rparr>"

definition example_resource :: trackerResource where
  "example_resource = \<lparr> tr_namespace = ''kyma-system'', tr_name = ''web'' \<rparr>"

text \<open>
  A deployment with UID \<open>uid-1\<close> whose template has the label \<open>app = web\<close> and
  revision content 2; replica sets with a name, a creation time, the UID of their
  controller, the revision content of their template and a number of ready replicas (their
  templates carry the hash label, the deployment's does not); and a client that returns the
  deployment and a given list of replica sets.
\<close>

definition example_owner :: "OwnerReference list" where
  "example_owner = [\<lparr> ref_UID = ''uid-0'', ref_Controller = None \<rparr>,
                    \<lparr> ref_UID = ''uid-1'', ref_Controller = Some True \<rparr>]"

definition example_deployment :: "(nat, unit) Deployment" where
  "example_deployment =
     \<lparr> d_Namespace = ''kyma-system'', d_UID = ''uid-1'', d_Selector = (),
       d_Template = \<lparr> Labels = [''app'' \<mapsto> ''web''], PodSpec = 2 \<rparr> \<rparr>"

definition example_rs :: "string \<Rightarrow> Time \<Rightarrow> string \<Rightarrow> nat \<Rightarrow> int32 \<Rightarrow> nat ReplicaSet" where
  "example_rs name created uid revision ready =
     \<lparr> rs_Name = name, rs_CreationTimestamp = created,
       rs_OwnerReferences = [\<lparr> ref_UID = ''uid-0'', ref_Controller = None \<rparr>,
                             \<lparr> ref_UID = uid, ref_Controller = Some True \<rparr>],
       rs_Template = \<lparr> Labels = [''app'' \<mapsto> ''web'', ''pod-template-hash'' \<mapsto> name],
                       PodSpec = revision \<rparr>,
       rs_ReadyReplicas = ready \<rparr>"

definition example_client :: "nat ReplicaSet list \<Rightarrow> (nat, unit) Clientset" where
  "example_client items =
     \<lparr> Deployments_Get = (\<lambda>ns n. Inr example_deployment),
       StatefulSets_Get = (\<lambda>ns n. Inl ''not found''),
       ReplicaSets_List = (\<lambda>ns sel. Inr items),
       LabelSelectorAsSelector = (\<lambda>sel. Inr ''app=web'') \<rparr>"

text \<open>
  A store with two label maps that differ in the hash label only, and templates that refer
  to them.
\<close>

definition example_store :: store where
  "example_store =
     \<lparr> cells = [0 \<mapsto> [''app'' \<mapsto> ''web'', ''pod-template-hash'' \<mapsto> ''5d4f''],
                1 \<mapsto> [''app'' \<mapsto> ''web'']],
       next_addr = 2 \<rparr>"

definition example_template :: "addr \<Rightarrow> nat PodTemplateSpec_ref" where
  "example_template a = \<lparr> Labels_ref = Some a, PodSpec_ref = 2 \<rparr>"

text \<open>
  A response writer nothing was written to; collaborators of the handler: the route
  variable as the parameter, a decoder that takes the body for the callback URL, a
  constructor of the callback handler (the URL itself) that fails on the empty URL, and a
  run that succeeds; and a request with a version and a body.
\<close>

definition new_writer :: ResponseWriter where
  "new_writer = \<lparr> rw_status = None, rw_body = [] \<rparr>"

definition example_collaborators :: "string collaborators" where
  "example_collaborators =
     \<lparr> params_String =
         (\<lambda>req p. case req_Vars req p of None \<Rightarrow> Inl ''parameter not found'' | Some v \<Rightarrow> Inr v),
       json_Unmarshal = (\<lambda>b m. (m\<lparr>CallbackURL := b\<rparr>, None)),
       newRemoteCallbackHandler =
         (\<lambda>url dbg. if url = [] then (None, Some ''callback URL is empty'') else (Some url, None)),
       runner_Run = (\<lambda>r m cbh. None) \<rparr>"

definition example_request :: "string \<Rightarrow> string \<Rightarrow> Request" where
  "example_request version body = \<lparr> req_Vars = [''version'' \<mapsto> version], req_Body = Inr body \<rparr>"

text \<open>
  A reconciler whose install action fails at every attempt, with two retries; a callback
  handler and a readiness wait that never fail; a model for a local run.
\<close>

definition failing_reconciler :: ComponentReconciler where
  "failing_reconciler =
     NewComponentReconciler
       \<lparr> installAction := Some (\<lambda>k v. Some ''install failed''), maxRetries := 2 \<rparr>"

definition silent_handler :: CallbackHandler where
  "silent_handler status = None"

definition ready_tracker :: Tracker where
  "ready_tracker k = None"

definition example_model :: Reconciliation where
  "example_model = \<lparr> CallbackURL = [], CallbackFct = Some silent_handler, Version = ''1.0'' \<rparr>"

chapter \<open>Properties\<close>

section \<open>Validation\<close>

lemma defaults_positive:
  "0 <s defaultUpdateInterval" "0 <s defaultMaxRetries"
  "0 <s defaultServerPort" "0 <s defaultRetryDelay"
  by (simp_all add: defaultUpdateInterval_def defaultMaxRetries_def defaultServerPort_def
      defaultRetryDelay_def Second_def word_sless_alt)

lemma sle_zero_iff: "x \<le>s (0 :: 64 word) \<longleftrightarrow> \<not> 0 <s x"
  by (simp add: word_sle_eq word_sless_alt not_less)

lemma validate_fields:
  "updateInterval (validate r) =
     (if updateInterval r \<le>s 0 then defaultUpdateInterval else updateInterval r)"
  "maxRetries (validate r) =
     (if maxRetries r \<le>s 0 then defaultMaxRetries else maxRetries r)"
  "retryDelay (validate r) =
     (if retryDelay r \<le>s 0 then defaultRetryDelay else retryDelay r)"
  "port (serverOpts (validate r)) =
     (if port (serverOpts r) \<le>s 0 then defaultServerPort else port (serverOpts r))"
  by (simp_all add: validate_def Let_def)

lemma validate_actions:
  "preInstallAction (validate r) = preInstallAction r"
  "installAction (validate r) = installAction r"
  "postInstallAction (validate r) = postInstallAction r"
  by (simp_all add: validate_def Let_def)

lemma validate_fixed:
  assumes "0 <s updateInterval r" "0 <s maxRetries r"
    "0 <s port (serverOpts r)" "0 <s retryDelay r"
  shows "validate r = r"
  using assms by (simp add: validate_def Let_def sle_zero_iff)

lemma validate_positive:
  "0 <s updateInterval (validate r)" "0 <s maxRetries (validate r)"
  "0 <s port (serverOpts (validate r))" "0 <s retryDelay (validate r)"
  using defaults_positive by (simp_all add: validate_fields sle_zero_iff)

text \<open>
  C8. The validation pass sets \<open>updateInterval\<close> to 30 seconds, \<open>maxRetries\<close> to 5 and
  \<open>retryDelay\<close> to 30 seconds exactly when the field is unset (zero) or not positive, and
  leaves a positive field as it is; a new reconciler, whose fields are all unset, gets the
  three defaults.
\<close>

theorem validate_defaults:
  "updateInterval (validate r) =
     (if updateInterval r \<le>s 0 then defaultUpdateInterval else updateInterval r) \<and>
   maxRetries (validate r) =
     (if maxRetries r \<le>s 0 then defaultMaxRetries else maxRetries r) \<and>
   retryDelay (validate r) =
     (if retryDelay r \<le>s 0 then defaultRetryDelay else retryDelay r) \<and>
   defaultUpdateInterval = 30000000000 \<and> defaultMaxRetries = 5 \<and>
   defaultRetryDelay = 30000000000 \<and>
   updateInterval (validate NewComponentReconciler) = 30 * Second \<and>
   maxRetries (validate NewComponentReconciler) = 5 \<and>
   retryDelay (validate NewComponentReconciler) = 30 * Second"
  by (simp add: validate_fields defaultUpdateInterval_def defaultMaxRetries_def
      defaultRetryDelay_def Second_def NewComponentReconciler_def)

text \<open>
  C10. \<open>validate\<close> is idempotent: a second application changes nothing (in particular
  not \<open>updateInterval\<close>, \<open>maxRetries\<close>, \<open>retryDelay\<close> and the server port), and after
  one application these four fields are positive.
\<close>

theorem validate_idempotent:
  "validate (validate r) = validate r \<and>
   0 <s updateInterval (validate r) \<and> 0 <s maxRetries (validate r) \<and>
   0 <s retryDelay (validate r) \<and> 0 <s port (serverOpts (validate r))"
  using validate_fixed [OF validate_positive] validate_positive by simp

section \<open>Custom resource definitions\<close>

lemma crdReady_loop_iff:
  "crdReady_loop cs \<longleftrightarrow>
     (\<exists>c \<in> set cs.
        cond_Type c = apiextv1_Established \<and> cond_Status c = apiextv1_ConditionTrue \<or>
        cond_Type c = apiextv1_NamesAccepted \<and> cond_Status c = apiextv1_ConditionFalse)"
  by (induction cs) (auto simp: apiextv1_Established_def apiextv1_NamesAccepted_def)

lemma crdBetaReady_loop_iff:
  "crdBetaReady_loop cs \<longleftrightarrow>
     (\<exists>c \<in> set cs.
        condb_Type c = apiextv1beta1_Established \<and>
          condb_Status c = apiextv1beta1_ConditionTrue \<or>
        condb_Type c = apiextv1beta1_NamesAccepted \<and>
          condb_Status c = apiextv1beta1_ConditionFalse)"
  by (induction cs) (auto simp: apiextv1beta1_Established_def apiextv1beta1_NamesAccepted_def)

lemmas apiext_constants =
  apiextv1_Established_def apiextv1_NamesAccepted_def apiextv1_ConditionTrue_def
  apiextv1_ConditionFalse_def apiextv1beta1_Established_def apiextv1beta1_NamesAccepted_def
  apiextv1beta1_ConditionTrue_def apiextv1beta1_ConditionFalse_def

text \<open>
  C6. For a custom resource definition of either API version, the readiness predicate
  holds exactly when some condition of its status has type \<open>Established\<close> and status
  \<open>True\<close>, or has type \<open>NamesAccepted\<close> and status \<open>False\<close>. In particular a definition
  whose only condition is \<open>NamesAccepted = False\<close> is ready, one whose only condition is
  \<open>Established = True\<close> is ready, and one without conditions is not.
\<close>

theorem crd_ready_iff:
  "(crdReady crd \<longleftrightarrow>
     (\<exists>c \<in> set (crd_Conditions crd).
        cond_Type c = apiextv1_Established \<and> cond_Status c = apiextv1_ConditionTrue \<or>
        cond_Type c = apiextv1_NamesAccepted \<and> cond_Status c = apiextv1_ConditionFalse)) \<and>
   (crdBetaReady crdb \<longleftrightarrow>
     (\<exists>c \<in> set (crdb_Conditions crdb).
        condb_Type c = apiextv1beta1_Established \<and>
          condb_Status c = apiextv1beta1_ConditionTrue \<or>
        condb_Type c = apiextv1beta1_NamesAccepted \<and>
          condb_Status c = apiextv1beta1_ConditionFalse)) \<and>
   crdReady \<lparr> crd_Conditions =
     [\<lparr> cond_Type = ''NamesAccepted'', cond_Status = ''False'' \<rparr>] \<rparr> \<and>
   crdBetaReady \<lparr> crdb_Conditions =
     [\<lparr> condb_Type = ''NamesAccepted'', condb_Status = ''False'' \<rparr>] \<rparr> \<and>
   crdReady \<lparr> crd_Conditions =
     [\<lparr> cond_Type = ''Established'', cond_Status = ''True'' \<rparr>] \<rparr> \<and>
   crdBetaReady \<lparr> crdb_Conditions =
     [\<lparr> condb_Type = ''Established'', condb_Status = ''True'' \<rparr>] \<rparr> \<and>
   \<not> crdReady \<lparr> crd_Conditions = [] \<rparr> \<and> \<not> crdBetaReady \<lparr> crdb_Conditions = [] \<rparr>"
  unfolding crdReady_def crdBetaReady_def crdReady_loop_iff crdBetaReady_loop_iff
  by (simp add: apiext_constants)

lemma crd_loops_agree:
  "map (\<lambda>c. (cond_Type c, cond_Status c)) cs = map (\<lambda>c. (condb_Type c, condb_Status c)) bs
   \<Longrightarrow> crdReady_loop cs = crdBetaReady_loop bs"
proof (induction cs arbitrary: bs)
  case Nil
  then show ?case by simp
next
  case (Cons c cs)
  then obtain b bs' where bs: "bs = b # bs'" by (cases bs) auto
  with Cons.prems have hd: "cond_Type c = condb_Type b" "cond_Status c = condb_Status b"
    and tl: "map (\<lambda>c. (cond_Type c, cond_Status c)) cs =
             map (\<lambda>c. (condb_Type c, condb_Status c)) bs'"
    by auto
  from Cons.IH [OF tl] hd bs show ?case
    by (simp add: apiext_constants)
qed

text \<open>
  C7. The two readiness predicates agree: on a v1 definition and a v1beta1 definition
  whose conditions carry the same list of (type, status) pairs, \<open>crdReady\<close> and
  \<open>crdBetaReady\<close> return the same boolean.
\<close>

theorem crd_versions_agree:
  assumes "map (\<lambda>c. (cond_Type c, cond_Status c)) (crd_Conditions crd) =
           map (\<lambda>c. (condb_Type c, condb_Status c)) (crdb_Conditions crdb)"
  shows "crdReady crd = crdBetaReady crdb"
  using crd_loops_agree [OF assms] by (simp add: crdReady_def crdBetaReady_def)

theorem crd_versions_agree_witness:
  "crdReady \<lparr> crd_Conditions =
      [\<lparr> cond_Type = ''Established'', cond_Status = ''False'' \<rparr>,
       \<lparr> cond_Type = ''NamesAccepted'', cond_Status = ''False'' \<rparr>] \<rparr> =
   crdBetaReady \<lparr> crdb_Conditions =
      [\<lparr> condb_Type = ''Established'', condb_Status = ''False'' \<rparr>,
       \<lparr> condb_Type = ''NamesAccepted'', condb_Status = ''False'' \<rparr>] \<rparr> \<and>
   crdBetaReady \<lparr> crdb_Conditions =
      [\<lparr> condb_Type = ''Established'', condb_Status = ''False'' \<rparr>,
       \<lparr> condb_Type = ''NamesAccepted'', condb_Status = ''False'' \<rparr>] \<rparr>"
  using crd_versions_agree
    [of "\<lparr> crd_Conditions =
          [\<lparr> cond_Type = ''Established'', cond_Status = ''False'' \<rparr>,
           \<lparr> cond_Type = ''NamesAccepted'', cond_Status = ''False'' \<rparr>] \<rparr>"
        "\<lparr> crdb_Conditions =
          [\<lparr> condb_Type = ''Established'', condb_Status = ''False'' \<rparr>,
           \<lparr> condb_Type = ''NamesAccepted'', condb_Status = ''False'' \<rparr>] \<rparr>"]
  by (simp add: crdBetaReady_def apiext_constants)

section \<open>Stateful sets\<close>

lemma sint_scast_32_64: "sint (scast (x :: 32 word) :: 64 word) = sint x"
  by (rule sint_up_scast) (simp add: is_up)

lemma sint32_bounds: "- (2^31) \<le> sint (x :: 32 word)" "sint (x :: 32 word) < 2^31"
  using sint_ge [of x] sint_lt [of x] by simp_all

lemma signed_take_bit_63_small:
  assumes "- (2^32) \<le> i" "i < (2^32 :: int)"
  shows "signed_take_bit 63 i = i"
  using assms by (intro signed_take_bit_int_eq_self) auto

lemma sint_go_replicas: "sint (go_replicas s) = replicas_of s"
  by (simp add: go_replicas_def replicas_of_def sint_scast_32_64 split: option.splits)

lemma sint_go_partition: "sint (go_partition s) = partition_of s"
  by (simp add: go_partition_def partition_of_def sint_scast_32_64 split: option.splits)

lemma replicas_bounds: "- (2^31) \<le> replicas_of s" "replicas_of s < 2^31"
  using sint32_bounds by (auto simp: replicas_of_def split: option.splits)

lemma partition_bounds: "- (2^31) \<le> partition_of s" "partition_of s < 2^31"
  using sint32_bounds by (auto simp: partition_of_def split: option.splits)

text \<open>The subtraction of the two 64-bit values does not wrap around.\<close>

lemma sint_expectedReplicas:
  "sint (go_replicas s - go_partition s) = replicas_of s - partition_of s"
proof -
  have "sint (go_replicas s - go_partition s) =
        signed_take_bit 63 (replicas_of s - partition_of s)"
    by (simp add: sint_word_ariths sint_go_replicas sint_go_partition)
  also have "\<dots> = replicas_of s - partition_of s"
    using replicas_bounds [of s] partition_bounds [of s]
    by (intro signed_take_bit_63_small) auto
  finally show ?thesis .
qed

lemma updated_eq_iff:
  "(scast u :: go_int) = go_replicas s - go_partition s \<longleftrightarrow>
   sint (u :: int32) = replicas_of s - partition_of s"
  by (metis sint_expectedReplicas sint_scast_32_64 word_eq_iff_signed)

lemma ready_eq_iff:
  "(scast u :: go_int) = go_replicas s \<longleftrightarrow> sint (u :: int32) = replicas_of s"
  by (metis sint_go_replicas sint_scast_32_64 word_eq_iff_signed)

lemma isStatefulSetReady_unfold:
  "StatefulSets_Get client (tr_namespace obj) (tr_name obj) = Inr s \<Longrightarrow>
   isStatefulSetReady client obj =
     (scast (ss_UpdatedReplicas s) = go_replicas s - go_partition s \<and>
      scast (ss_ReadyReplicas s) = go_replicas s, None)"
  by (simp add: isStatefulSetReady_def Let_def go_replicas_def go_partition_def)

text \<open>
  C5. When the fetch of the stateful set succeeds, \<open>isStatefulSetReady\<close> returns no error,
  and its boolean is true exactly when \<open>UpdatedReplicas\<close> equals replicas minus partition
  and \<open>ReadyReplicas\<close> equals replicas, where replicas is the replica count of the
  specification (1 when unset) and partition the partition of the rolling update (0 when
  unset). The witness evaluates the two examples: replicas 3, partition 1, updated 2,
  ready 3 is ready; with updated 1 it is not ready, whatever \<open>ReadyReplicas\<close> is.
\<close>

theorem isStatefulSetReady_iff:
  assumes "StatefulSets_Get client (tr_namespace obj) (tr_name obj) = Inr s"
  shows "isStatefulSetReady client obj =
           (sint (ss_UpdatedReplicas s) = replicas_of s - partition_of s \<and>
            sint (ss_ReadyReplicas s) = replicas_of s, None)"
  by (simp add: isStatefulSetReady_unfold [OF assms] updated_eq_iff ready_eq_iff)

theorem isStatefulSetReady_iff_witness:
  "isStatefulSetReady (example_set_client (example_set 2 3)) example_resource = (True, None) \<and>
   (\<forall>ready. isStatefulSetReady (example_set_client (example_set 1 ready)) example_resource =
      (False, None))"
proof -
  have a: "isStatefulSetReady (example_set_client (example_set 2 3)) example_resource =
           (True, None)"
    using isStatefulSetReady_iff
      [of "example_set_client (example_set 2 3)" example_resource "example_set 2 3"]
    by (simp add: example_set_client_def example_set_def replicas_of_def partition_of_def)
  have b: "isStatefulSetReady (example_set_client (example_set 1 ready)) example_resource =
           (False, None)" for ready
    using isStatefulSetReady_iff
      [of "example_set_client (example_set 1 ready)" example_resource "example_set 1 ready"]
    by (simp add: example_set_client_def example_set_def replicas_of_def partition_of_def)
  from a b show ?thesis by simp
qed

section \<open>The sort\<close>

lemma Less_LessE: "Less rs i j = LessE (rs ! i) (rs ! j)"
  by (simp add: Less_def LessE_def)

lemma LessE_key: "LessE a b \<longleftrightarrow> selection_key a < selection_key b"
  by (auto simp: LessE_def selection_key_def Time_Equal_def Time_Before_def less_prod_def)

lemma length_insl [simp]: "length (insl x q) = Suc (length q)"
  by (induction q) auto

lemma mset_insl: "mset (insl x q) = add_mset x (mset q)"
  by (induction q) auto

lemma set_insl: "set (insl x q) = insert x (set q)"
  by (induction q) auto

lemma sorted_insl:
  "sorted (rev (map selection_key q)) \<Longrightarrow> sorted (rev (map selection_key (insl x q)))"
proof (induction q)
  case Nil
  then show ?case by simp
next
  case (Cons y ys)
  show ?case
  proof (cases "LessE x y")
    case True
    from Cons.prems have s: "sorted (rev (map selection_key ys))"
      and le: "\<forall>z \<in> set ys. selection_key z \<le> selection_key y"
      by (auto simp: sorted_append)
    from True have "selection_key x \<le> selection_key y" by (simp add: LessE_key)
    with Cons.IH [OF s] le True show ?thesis
      by (auto simp: sorted_append set_insl)
  next
    case False
    then have "selection_key y \<le> selection_key x" by (simp add: LessE_key)
    moreover from Cons.prems have "\<forall>z \<in> set ys. selection_key z \<le> selection_key y"
      by (auto simp: sorted_append)
    ultimately show ?thesis using Cons.prems False
      by (auto simp: sorted_append)
  qed
qed

lemma filter_insl:
  "filter (\<lambda>y. selection_key y = c) (insl x q) = filter (\<lambda>y. selection_key y = c) (x # q)"
  by (induction q) (auto simp: LessE_key)

lemma insertionSort_inner_eq:
  "j < length rs \<Longrightarrow>
   insertionSort_inner rs j = rev (insl (rs ! j) (rev (take j rs))) @ drop (Suc j) rs"
proof (induction j arbitrary: rs)
  case 0
  then show ?case by (cases rs) auto
next
  case (Suc j)
  show ?case
  proof (cases "Less rs (Suc j) j")
    case True
    let ?rs' = "Swap rs (Suc j) j"
    have len: "j < length ?rs'" using Suc.prems by (simp add: Swap_def)
    have n: "?rs' ! j = rs ! Suc j" using Suc.prems by (simp add: Swap_def)
    have t: "take j ?rs' = take j rs" by (simp add: Swap_def)
    have d: "drop (Suc j) ?rs' = rs ! j # drop (Suc (Suc j)) rs"
      using Suc.prems
      by (simp add: Swap_def drop_update_swap Cons_nth_drop_Suc [symmetric]
          upd_conv_take_nth_drop)
    from True have L: "LessE (rs ! Suc j) (rs ! j)" by (simp add: Less_LessE)
    have tk: "take (Suc j) rs = take j rs @ [rs ! j]"
      using Suc.prems by (simp add: take_Suc_conv_app_nth)
    have "insertionSort_inner rs (Suc j) = insertionSort_inner ?rs' j"
      using True by simp
    also have "\<dots> = rev (insl (rs ! Suc j) (rev (take j rs))) @ rs ! j # drop (Suc (Suc j)) rs"
      using Suc.IH [OF len] by (simp add: n t d)
    also have "\<dots> = rev (insl (rs ! Suc j) (rev (take (Suc j) rs))) @ drop (Suc (Suc j)) rs"
      using L by (simp add: tk)
    finally show ?thesis .
  next
    case False
    then have L: "\<not> LessE (rs ! Suc j) (rs ! j)" by (simp add: Less_LessE)
    have tk: "take (Suc j) rs = take j rs @ [rs ! j]"
      using Suc.prems by (simp add: take_Suc_conv_app_nth)
    have "rev (insl (rs ! Suc j) (rev (take (Suc j) rs))) @ drop (Suc (Suc j)) rs
          = take (Suc j) rs @ rs ! Suc j # drop (Suc (Suc j)) rs"
      using L by (simp add: tk)
    also have "\<dots> = rs" using Suc.prems by (simp add: id_take_nth_drop [symmetric])
    finally show ?thesis using False by simp
  qed
qed


lemma length_insertionSort_inner [simp]:
  "j < length rs \<Longrightarrow> length (insertionSort_inner rs j) = length rs"
  by (simp add: insertionSort_inner_eq)

lemma split_at: "j < length rs \<Longrightarrow> rs = take j rs @ rs ! j # drop (Suc j) rs"
  by (rule id_take_nth_drop)

lemma mset_insertionSort_inner:
  assumes "j < length rs"
  shows "mset (insertionSort_inner rs j) = mset rs"
proof -
  have "mset (insertionSort_inner rs j) =
        mset (take j rs) + {#rs ! j#} + mset (drop (Suc j) rs)"
    by (simp add: insertionSort_inner_eq [OF assms] mset_insl)
  also have "\<dots> = mset (take j rs @ rs ! j # drop (Suc j) rs)" by simp
  also have "\<dots> = mset rs" using split_at [OF assms] by simp
  finally show ?thesis .
qed

lemma filter_insertionSort_inner:
  assumes "j < length rs"
  shows "filter (\<lambda>y. selection_key y = c) (insertionSort_inner rs j) =
         filter (\<lambda>y. selection_key y = c) rs"
proof -
  let ?P = "\<lambda>y. selection_key y = c"
  have "filter ?P (insertionSort_inner rs j) =
        rev (filter ?P (insl (rs ! j) (rev (take j rs)))) @ filter ?P (drop (Suc j) rs)"
    by (simp add: insertionSort_inner_eq [OF assms] rev_filter)
  also have "\<dots> = filter ?P (take j rs @ rs ! j # drop (Suc j) rs)"
    by (simp add: filter_insl rev_filter)
  also have "\<dots> = filter ?P rs" using split_at [OF assms] by simp
  finally show ?thesis .
qed

lemma sorted_take_insertionSort_inner:
  assumes "j < length rs" "sorted (map selection_key (take j rs))"
  shows "sorted (map selection_key (take (Suc j) (insertionSort_inner rs j)))"
proof -
  have "take (Suc j) (insertionSort_inner rs j) = rev (insl (rs ! j) (rev (take j rs)))"
    using assms(1) by (simp add: insertionSort_inner_eq)
  moreover have "sorted (rev (map selection_key (insl (rs ! j) (rev (take j rs)))))"
    using assms(2) by (intro sorted_insl) (simp add: rev_map)
  ultimately show ?thesis by (simp add: rev_map)
qed

lemma insertionSort_outer:
  assumes "length rs = n" "k \<le> n" "sorted (map selection_key (take k rs))"
  shows "sorted (map selection_key (fold (\<lambda>i rs. insertionSort_inner rs i) [k ..< n] rs)) \<and>
         mset (fold (\<lambda>i rs. insertionSort_inner rs i) [k ..< n] rs) = mset rs \<and>
         (\<forall>c. filter (\<lambda>y. selection_key y = c) (fold (\<lambda>i rs. insertionSort_inner rs i) [k ..< n] rs) =
              filter (\<lambda>y. selection_key y = c) rs)"
  using assms
proof (induction "n - k" arbitrary: k rs)
  case 0
  then show ?case by simp
next
  case (Suc d)
  then have kn: "k < n" by simp
  let ?rs' = "insertionSort_inner rs k"
  have klen: "k < length rs" using kn Suc.prems by simp
  have len: "length ?rs' = n" using klen Suc.prems by simp
  have srt: "sorted (map selection_key (take (Suc k) ?rs'))"
    using sorted_take_insertionSort_inner [OF klen] Suc.prems by simp
  have d: "d = n - Suc k" using Suc.hyps by simp
  have up: "[k ..< n] = k # [Suc k ..< n]" using kn by (simp add: upt_conv_Cons)
  from Suc.hyps(1) [OF d len _ srt] kn
  show ?case
    by (simp add: up mset_insertionSort_inner [OF klen] filter_insertionSort_inner [OF klen])
qed

lemma insertionSort_eq: "insertionSort rs = sort_key selection_key rs"
proof (cases "length rs = 0")
  case True
  then show ?thesis by (simp add: insertionSort_def Len_def)
next
  case False
  then have one: "1 \<le> length rs" by (cases rs) simp_all
  have "sorted (map selection_key (take 1 rs))"
    by (cases rs) auto
  note outer = insertionSort_outer [OF refl one this]
  have s: "sorted (map selection_key (insertionSort rs))"
    and m: "mset (insertionSort rs) = mset rs"
    using outer by (simp_all add: insertionSort_def Len_def)
  have f: "filter (\<lambda>y. selection_key y = c) (insertionSort rs) =
           filter (\<lambda>y. selection_key y = c) rs" for c
    using outer unfolding insertionSort_def Len_def by blast
  show ?thesis
  proof (rule properties_for_sort_key [symmetric])
    show "mset (insertionSort rs) = mset rs" by (rule m)
    show "sorted (map selection_key (insertionSort rs))" by (rule s)
    fix k assume "k \<in> set (insertionSort rs)"
    have flip: "filter (\<lambda>x. selection_key k = selection_key x) xs =
                filter (\<lambda>y. selection_key y = selection_key k) xs" for xs
      by (rule filter_cong) auto
    show "filter (\<lambda>x. selection_key k = selection_key x) (insertionSort rs) =
          filter (\<lambda>x. selection_key k = selection_key x) rs"
      by (simp only: flip f)
  qed
qed

section \<open>The contract of the sort\<close>

text \<open>
  In a list, no later element is \<^verbatim>\<open>Less\<close> than an earlier one exactly when the
  pairs of timestamp and name ascend.
\<close>

lemma not_Less_iff_sorted:
  "(\<forall>i j. i < j \<and> j < Len rs \<longrightarrow> \<not> Less rs j i) \<longleftrightarrow> sorted (map selection_key rs)"
proof -
  have "sorted (map selection_key rs) \<longleftrightarrow>
        (\<forall>i j. i < j \<longrightarrow> j < length rs \<longrightarrow> selection_key (rs ! i) \<le> selection_key (rs ! j))"
    by (simp add: sorted_map sorted_wrt_iff_nth_less)
  also have "\<dots> \<longleftrightarrow> (\<forall>i j. i < j \<and> j < Len rs \<longrightarrow> \<not> Less rs j i)"
    by (auto simp: Less_LessE LessE_key Len_def not_less)
  finally show ?thesis by simp
qed

lemma contract_mset: "sort_contract srt \<Longrightarrow> mset (srt rs) = mset rs"
  by (simp add: sort_contract_def)

lemma contract_set: "sort_contract srt \<Longrightarrow> set (srt rs) = set rs"
  using contract_mset [of srt rs] by (metis mset_eq_setD)

lemma contract_sorted: "sort_contract srt \<Longrightarrow> sorted (map selection_key (srt rs))"
  unfolding not_Less_iff_sorted [symmetric] by (simp add: sort_contract_def)

lemma contract_Nil: "sort_contract srt \<Longrightarrow> srt [] = []"
  using contract_mset [of srt "[]"] by simp

lemma contract_single: "sort_contract srt \<Longrightarrow> srt [x] = [x]"
  using contract_mset [of srt "[x]"] by simp

lemma insertionSort_contract: "sort_contract insertionSort"
  unfolding sort_contract_def not_Less_iff_sorted
  by (simp add: insertionSort_eq)

text \<open>
  Where the elements differ pairwise in timestamp or name (as replica sets of one namespace
  do), the contract leaves one list only: the one the stable sort returns.
\<close>

lemma filter_key_single:
  "distinct (map f ys) \<Longrightarrow> k \<in> set ys \<Longrightarrow> filter (\<lambda>x. f k = f x) ys = [k]"
proof (induction ys)
  case Nil
  then show ?case by simp
next
  case (Cons y ys)
  show ?case
  proof (cases "k = y")
    case True
    with Cons.prems have "\<forall>x \<in> set ys. f k \<noteq> f x" by auto
    then have "filter (\<lambda>x. f k = f x) ys = []" by (simp add: filter_empty_conv)
    with True show ?thesis by simp
  next
    case False
    with Cons.prems have "k \<in> set ys" "f k \<noteq> f y" by (auto simp: image_iff)
    with Cons show ?thesis by simp
  qed
qed

lemma contract_unique:
  assumes "sort_contract srt" "distinct (map selection_key rs)"
  shows "srt rs = sort_key selection_key rs"
proof -
  let ?ys = "srt rs"
  have m: "mset ?ys = mset rs" by (rule contract_mset [OF assms(1)])
  then have "mset (map selection_key ?ys) = mset (map selection_key rs)" by simp
  with assms(2) have dy: "distinct (map selection_key ?ys)"
    by (metis mset_eq_imp_distinct_iff)
  have "sort_key selection_key rs = ?ys"
  proof (rule properties_for_sort_key)
    show "mset ?ys = mset rs" by (rule m)
    show "sorted (map selection_key ?ys)" by (rule contract_sorted [OF assms(1)])
    fix k assume k: "k \<in> set ?ys"
    then have "k \<in> set rs" by (simp add: contract_set [OF assms(1)])
    with assms(2) k dy
    show "filter (\<lambda>x. selection_key k = selection_key x) ?ys =
          filter (\<lambda>x. selection_key k = selection_key x) rs"
      by (simp add: filter_key_single)
  qed
  then show ?thesis by simp
qed

section \<open>The selection\<close>

lemma findNewReplicaSet_scan_find:
  "findNewReplicaSet_scan d xs = List.find (matches d) xs"
  by (induction xs) (auto simp: matches_def)

lemma findNewReplicaSet_eq:
  "findNewReplicaSet srt d rsList = List.find (matches d) (srt rsList)"
  by (simp add: findNewReplicaSet_def findNewReplicaSet_scan_find)

lemma getLatestReplicaSet_eq:
  assumes "sort_contract srt"
    and "LabelSelectorAsSelector client (d_Selector d) = Inr sel"
    and "ReplicaSets_List client (d_Namespace d) sel = Inr items"
  shows "getLatestReplicaSet srt d client =
           (List.find (matches d) (srt (owned_candidates d items)), None)"
  using assms(2,3) contract_Nil [OF assms(1)]
  by (simp add: getLatestReplicaSet_def Let_def owned_candidates_def findNewReplicaSet_eq)

lemma find_sorted_least:
  assumes "sorted (map f xs)" "List.find P xs = Some x" "y \<in> set xs" "P y"
  shows "f x \<le> f y"
  using assms
proof (induction xs)
  case Nil
  then show ?case by simp
next
  case (Cons a xs)
  then show ?case by (auto split: if_splits)
qed

lemma find_Some_mem: "List.find P xs = Some x \<Longrightarrow> x \<in> set xs \<and> P x"
  by (induction xs) (auto split: if_splits)

lemma selection_Some:
  assumes "sort_contract srt"
    and "List.find (matches d) (srt (owned_candidates d items)) = Some r"
  shows "r \<in> set items \<and> IsControlledBy r d \<and> matches d r \<and>
         (\<forall>r' \<in> set items. IsControlledBy r' d \<and> matches d r' \<longrightarrow>
            selection_key r \<le> selection_key r')"
proof -
  let ?xs = "srt (owned_candidates d items)"
  have set: "set ?xs = {r \<in> set items. IsControlledBy r d}"
    by (simp add: contract_set [OF assms(1)] owned_candidates_def)
  from find_Some_mem [OF assms(2)] set
  have "r \<in> set items" "IsControlledBy r d" "matches d r"
    by simp_all
  moreover have "selection_key r \<le> selection_key r'"
    if "r' \<in> set items" "IsControlledBy r' d" "matches d r'" for r'
    using find_sorted_least [OF contract_sorted [OF assms(1)] assms(2), of r'] that set
    by simp
  ultimately show ?thesis by auto
qed

lemma selection_None:
  assumes "sort_contract srt"
  shows "List.find (matches d) (srt (owned_candidates d items)) = None \<longleftrightarrow>
           (\<forall>r \<in> set items. \<not> (IsControlledBy r d \<and> matches d r))"
  by (auto simp: find_None_iff contract_set [OF assms] owned_candidates_def)

lemma selection_distinct:
  assumes "sort_contract srt" "distinct (map selection_key (owned_candidates d items))"
  shows "List.find (matches d) (srt (owned_candidates d items)) = current_replica_set d items"
  by (simp add: current_replica_set_def contract_unique [OF assms])

section \<open>Deployments\<close>

lemma example_controlled:
  "IsControlledBy (example_rs name created uid revision ready) example_deployment \<longleftrightarrow>
     uid = ''uid-1''"
  by (auto simp: IsControlledBy_def example_rs_def example_deployment_def)

lemma example_matches:
  "matches example_deployment (example_rs name created uid revision ready) \<longleftrightarrow> revision = 2"
  by (auto simp: matches_def equalIgnoreHash_def DeepCopy_def DeepEqual_def delete_def
      DefaultDeploymentUniqueLabelKey_def example_rs_def example_deployment_def)

lemma example_key:
  "selection_key (example_rs name created uid revision ready) = (created, name)"
  by (simp add: selection_key_def example_rs_def)

lemma example_ready:
  "rs_ReadyReplicas (example_rs name created uid revision ready) = ready"
  by (simp add: example_rs_def)

lemma example_fetch:
  "Deployments_Get (example_client items) ns n = Inr example_deployment"
  "LabelSelectorAsSelector (example_client items) s = Inr ''app=web''"
  "ReplicaSets_List (example_client items) ns sel = Inr items"
  by (simp_all add: example_client_def)

text \<open>
  C3. When the fetch of the deployment succeeds, \<open>isDeploymentReady\<close> returns
  \<open>(true, nil)\<close> exactly when the selection returns a replica set, without an error,
  whose \<open>ReadyReplicas\<close> is at least 1. When moreover the sort meets its contract, the
  selector converts and the listing succeeds, the selected replica set is the first
  matching one among the owned candidates as sorted; with a single listed replica set that
  is owned and matches the template the result is \<open>(ReadyReplicas \<ge> 1, nil)\<close>, so true at
  1 and false at 0; when no listed replica set is both owned and matching the result is
  \<open>(false, nil)\<close>: not ready, no error; and when the owned candidates differ pairwise in
  timestamp or name, the selected replica set is the current replica set of the
  specification.
\<close>

theorem isDeploymentReady_iff:
  assumes "Deployments_Get client (tr_namespace obj) (tr_name obj) = Inr d"
  shows "(isDeploymentReady srt client obj = (True, None) \<longleftrightarrow>
            (\<exists>rs. getLatestReplicaSet srt d client = (Some rs, None) \<and>
                  1 \<le> sint (rs_ReadyReplicas rs))) \<and>
         (sort_contract srt \<longrightarrow>
          LabelSelectorAsSelector client (d_Selector d) = Inr sel \<longrightarrow>
          ReplicaSets_List client (d_Namespace d) sel = Inr items \<longrightarrow>
            (isDeploymentReady srt client obj = (True, None) \<longleftrightarrow>
               (\<exists>rs. List.find (matches d) (srt (owned_candidates d items)) = Some rs \<and>
                     1 \<le> sint (rs_ReadyReplicas rs))) \<and>
            (items = [r] \<longrightarrow> IsControlledBy r d \<longrightarrow> matches d r \<longrightarrow>
               isDeploymentReady srt client obj = (1 \<le> sint (rs_ReadyReplicas r), None)) \<and>
            ((\<forall>x \<in> set items. \<not> (IsControlledBy x d \<and> matches d x)) \<longrightarrow>
               isDeploymentReady srt client obj = (False, None)) \<and>
            (distinct (map selection_key (owned_candidates d items)) \<longrightarrow>
               (isDeploymentReady srt client obj = (True, None) \<longleftrightarrow>
                  (\<exists>rs. current_replica_set d items = Some rs \<and>
                        1 \<le> sint (rs_ReadyReplicas rs)))))"
proof -
  have unfold: "isDeploymentReady srt client obj =
      (case getLatestReplicaSet srt d client of
         (replicaSet, Some err) \<Rightarrow> (False, Some err)
       | (None, None) \<Rightarrow> (False, None)
       | (Some replicaSet, None) \<Rightarrow> (1 \<le> sint (rs_ReadyReplicas replicaSet), None))"
    using assms
    by (simp add: isDeploymentReady_def expectedReadyReplicas_def word_sle_eq
        split: prod.splits option.splits)
  have first: "isDeploymentReady srt client obj = (True, None) \<longleftrightarrow>
            (\<exists>rs. getLatestReplicaSet srt d client = (Some rs, None) \<and>
                  1 \<le> sint (rs_ReadyReplicas rs))"
    unfolding unfold by (auto split: prod.splits option.splits)
  have second: "(isDeploymentReady srt client obj = (True, None) \<longleftrightarrow>
               (\<exists>rs. List.find (matches d) (srt (owned_candidates d items)) = Some rs \<and>
                     1 \<le> sint (rs_ReadyReplicas rs))) \<and>
            (items = [r] \<longrightarrow> IsControlledBy r d \<longrightarrow> matches d r \<longrightarrow>
               isDeploymentReady srt client obj = (1 \<le> sint (rs_ReadyReplicas r), None)) \<and>
            ((\<forall>x \<in> set items. \<not> (IsControlledBy x d \<and> matches d x)) \<longrightarrow>
               isDeploymentReady srt client obj = (False, None)) \<and>
            (distinct (map selection_key (owned_candidates d items)) \<longrightarrow>
               (isDeploymentReady srt client obj = (True, None) \<longleftrightarrow>
                  (\<exists>rs. current_replica_set d items = Some rs \<and>
                        1 \<le> sint (rs_ReadyReplicas rs))))"
    if con: "sort_contract srt"
      and sel: "LabelSelectorAsSelector client (d_Selector d) = Inr sel"
      and list: "ReplicaSets_List client (d_Namespace d) sel = Inr items"
  proof -
    note g = getLatestReplicaSet_eq [OF con sel list]
    have a: "isDeploymentReady srt client obj = (True, None) \<longleftrightarrow>
               (\<exists>rs. List.find (matches d) (srt (owned_candidates d items)) = Some rs \<and>
                     1 \<le> sint (rs_ReadyReplicas rs))"
      unfolding first g by simp
    have b: "isDeploymentReady srt client obj = (1 \<le> sint (rs_ReadyReplicas r), None)"
      if "items = [r]" "IsControlledBy r d" "matches d r"
      unfolding unfold g using that
      by (simp add: owned_candidates_def contract_single [OF con])
    have c: "isDeploymentReady srt client obj = (False, None)"
      if "\<forall>x \<in> set items. \<not> (IsControlledBy x d \<and> matches d x)"
    proof -
      from that have "List.find (matches d) (srt (owned_candidates d items)) = None"
        by (simp add: selection_None [OF con])
      then show ?thesis unfolding unfold g by simp
    qed
    have e: "isDeploymentReady srt client obj = (True, None) \<longleftrightarrow>
               (\<exists>rs. current_replica_set d items = Some rs \<and> 1 \<le> sint (rs_ReadyReplicas rs))"
      if "distinct (map selection_key (owned_candidates d items))"
      unfolding a selection_distinct [OF con that] ..
    from a b c e show ?thesis by blast
  qed
  from first second show ?thesis by blast
qed

theorem isDeploymentReady_iff_witness:
  "isDeploymentReady insertionSort (example_client [example_rs ''web-a'' 20 ''uid-1'' 2 1])
     example_resource = (True, None) \<and>
   isDeploymentReady insertionSort (example_client [example_rs ''web-a'' 20 ''uid-1'' 2 0])
     example_resource = (False, None) \<and>
   isDeploymentReady insertionSort (example_client []) example_resource = (False, None) \<and>
   isDeploymentReady insertionSort (example_client [example_rs ''other'' 5 ''uid-2'' 2 1,
      example_rs ''web-0'' 10 ''uid-1'' 1 1]) example_resource = (False, None) \<and>
   isDeploymentReady insertionSort
     (example_client [example_rs ''web-b'' 20 ''uid-1'' 2 0, example_rs ''web-a'' 20 ''uid-1'' 2 3,
        example_rs ''web-0'' 10 ''uid-1'' 1 0]) example_resource = (True, None)"
proof -
  have a: "isDeploymentReady insertionSort
             (example_client [example_rs ''web-a'' 20 ''uid-1'' 2 ready])
             example_resource = (1 \<le> sint ready, None)" for ready
    using isDeploymentReady_iff
      [where client = "example_client [example_rs ''web-a'' 20 ''uid-1'' 2 ready]"
         and obj = example_resource and d = example_deployment and srt = insertionSort
         and sel = "''app=web''" and items = "[example_rs ''web-a'' 20 ''uid-1'' 2 ready]"
         and r = "example_rs ''web-a'' 20 ''uid-1'' 2 ready"]
    by (simp add: insertionSort_contract example_fetch example_controlled example_matches
        example_ready)
  have b: "isDeploymentReady insertionSort (example_client items) example_resource =
             (False, None)"
    if "\<forall>x \<in> set items. \<not> (IsControlledBy x example_deployment \<and> matches example_deployment x)"
    for items
    using isDeploymentReady_iff
      [where client = "example_client items" and obj = example_resource
         and d = example_deployment and srt = insertionSort and sel = "''app=web''"
         and items = items and r = "example_rs [] 0 [] 0 0"]
      that
    by (simp add: insertionSort_contract example_fetch)
  let ?three = "[example_rs ''web-b'' 20 ''uid-1'' 2 0, example_rs ''web-a'' 20 ''uid-1'' 2 3,
        example_rs ''web-0'' 10 ''uid-1'' 1 0]"
  have c: "isDeploymentReady insertionSort (example_client ?three) example_resource =
             (True, None)"
    using isDeploymentReady_iff
      [where client = "example_client ?three" and obj = example_resource
         and d = example_deployment and srt = insertionSort and sel = "''app=web''"
         and items = ?three and r = "example_rs [] 0 [] 0 0"]
    by (simp add: insertionSort_contract example_fetch owned_candidates_def
        current_replica_set_def example_controlled example_matches example_key example_ready)
  from a [of 1] a [of 0] b [of "[]"]
    b [of "[example_rs ''other'' 5 ''uid-2'' 2 1, example_rs ''web-0'' 10 ''uid-1'' 1 1]"] c
  show ?thesis
    by (simp add: example_controlled example_matches)
qed

text \<open>
  C4. Whatever sort meets the contract of \<^verbatim>\<open>sort.Sort\<close>: when the selector converts
  and the listing succeeds, the selection returns, without an error, the first replica set
  whose template equals the deployment's after the \<open>pod-template-hash\<close> label is deleted
  on both sides, in the list of the candidates controller-owned by the deployment as the
  sort leaves it, and that list is a permutation of the owned candidates that ascends by
  creation timestamp and, at equal timestamps, by name; \<open>findNewReplicaSet\<close> is that sort
  and scan on the list it is given. The result is none exactly when no candidate is both
  owned and matching; otherwise it is an owned, matching candidate, and no owned, matching
  candidate has an earlier creation timestamp, or the same timestamp and a smaller name.
  When the owned candidates differ pairwise in timestamp or name, the result is the current
  replica set in the words of the specification.
\<close>

theorem getLatestReplicaSet_selection:
  assumes "sort_contract srt"
    and "LabelSelectorAsSelector client (d_Selector d) = Inr sel"
    and "ReplicaSets_List client (d_Namespace d) sel = Inr items"
  shows "getLatestReplicaSet srt d client =
           (List.find (matches d) (srt (owned_candidates d items)), None) \<and>
         mset (srt (owned_candidates d items)) = mset (owned_candidates d items) \<and>
         sorted (map selection_key (srt (owned_candidates d items))) \<and>
         findNewReplicaSet srt d rsList = List.find (matches d) (srt rsList) \<and>
         (case fst (getLatestReplicaSet srt d client) of
            None \<Rightarrow> \<forall>r \<in> set items. \<not> (IsControlledBy r d \<and> matches d r)
          | Some r \<Rightarrow>
              r \<in> set items \<and> IsControlledBy r d \<and> matches d r \<and>
              (\<forall>r' \<in> set items. IsControlledBy r' d \<and> matches d r' \<longrightarrow>
                 rs_CreationTimestamp r < rs_CreationTimestamp r' \<or>
                 rs_CreationTimestamp r = rs_CreationTimestamp r' \<and> rs_Name r \<le> rs_Name r')) \<and>
         (distinct (map selection_key (owned_candidates d items)) \<longrightarrow>
            getLatestReplicaSet srt d client = (current_replica_set d items, None)) \<and>
         (matches d x \<longleftrightarrow>
            (rs_Template x)\<lparr>Labels := (Labels (rs_Template x))(''pod-template-hash'' := None)\<rparr> =
            (d_Template d)\<lparr>Labels := (Labels (d_Template d))(''pod-template-hash'' := None)\<rparr>)"
proof -
  note g = getLatestReplicaSet_eq [OF assms]
  let ?res = "List.find (matches d) (srt (owned_candidates d items))"
  have sel: "(case fst (getLatestReplicaSet srt d client) of
            None \<Rightarrow> \<forall>r \<in> set items. \<not> (IsControlledBy r d \<and> matches d r)
          | Some r \<Rightarrow>
              r \<in> set items \<and> IsControlledBy r d \<and> matches d r \<and>
              (\<forall>r' \<in> set items. IsControlledBy r' d \<and> matches d r' \<longrightarrow>
                 rs_CreationTimestamp r < rs_CreationTimestamp r' \<or>
                 rs_CreationTimestamp r = rs_CreationTimestamp r' \<and> rs_Name r \<le> rs_Name r'))"
  proof (cases ?res)
    case None
    then have "\<forall>r \<in> set items. \<not> (IsControlledBy r d \<and> matches d r)"
      by (simp add: selection_None [OF assms(1)])
    then show ?thesis unfolding g using None by simp
  next
    case (Some r)
    from selection_Some [OF assms(1) Some] show ?thesis
      unfolding g using Some by (auto simp: selection_key_def)
  qed
  have dis: "getLatestReplicaSet srt d client = (current_replica_set d items, None)"
    if "distinct (map selection_key (owned_candidates d items))"
    unfolding g selection_distinct [OF assms(1) that] ..
  have m: "matches d x \<longleftrightarrow>
            (rs_Template x)\<lparr>Labels := (Labels (rs_Template x))(''pod-template-hash'' := None)\<rparr> =
            (d_Template d)\<lparr>Labels := (Labels (d_Template d))(''pod-template-hash'' := None)\<rparr>"
    by (simp add: matches_def equalIgnoreHash_def DeepCopy_def DeepEqual_def delete_def
        DefaultDeploymentUniqueLabelKey_def Let_def)
  from g contract_mset [OF assms(1), of "owned_candidates d items"]
    contract_sorted [OF assms(1), of "owned_candidates d items"]
    findNewReplicaSet_eq [of srt d rsList] sel dis m
  show ?thesis by blast
qed

theorem getLatestReplicaSet_selection_witness:
  "sort_contract (insertionSort :: nat ReplicaSet list \<Rightarrow> nat ReplicaSet list) \<and>
   getLatestReplicaSet insertionSort example_deployment
     (example_client
       [example_rs ''web-b'' 20 ''uid-1'' 2 1, example_rs ''web-a'' 20 ''uid-1'' 2 1,
        example_rs ''other'' 5 ''uid-2'' 2 1, example_rs ''web-0'' 10 ''uid-1'' 1 1])
   = (Some (example_rs ''web-a'' 20 ''uid-1'' 2 1), None) \<and>
   getLatestReplicaSet insertionSort example_deployment
     (example_client
       [example_rs ''other'' 5 ''uid-2'' 2 1, example_rs ''web-0'' 10 ''uid-1'' 1 1])
   = (None, None)"
proof -
  let ?four = "[example_rs ''web-b'' 20 ''uid-1'' 2 1, example_rs ''web-a'' 20 ''uid-1'' 2 1,
        example_rs ''other'' 5 ''uid-2'' 2 1, example_rs ''web-0'' 10 ''uid-1'' 1 1]"
  let ?two = "[example_rs ''other'' 5 ''uid-2'' 2 1, example_rs ''web-0'' 10 ''uid-1'' 1 1]"
  have c: "sort_contract (insertionSort :: nat ReplicaSet list \<Rightarrow> nat ReplicaSet list)"
    by (rule insertionSort_contract)
  have spec: "getLatestReplicaSet insertionSort example_deployment (example_client items) =
                (current_replica_set example_deployment items, None)"
    if "distinct (map selection_key (owned_candidates example_deployment items))" for items
    using getLatestReplicaSet_selection
      [OF c example_fetch(2) example_fetch(3),
        where d = example_deployment and items = items and rsList = "[]"
          and x = "example_rs [] 0 [] 0 0"]
      that
    by blast
  have d4: "distinct (map selection_key (owned_candidates example_deployment ?four))"
    by (simp add: owned_candidates_def example_controlled example_key)
  have d2: "distinct (map selection_key (owned_candidates example_deployment ?two))"
    by (simp add: owned_candidates_def example_controlled example_key)
  have r4: "current_replica_set example_deployment ?four =
              Some (example_rs ''web-a'' 20 ''uid-1'' 2 1)"
    by (simp add: current_replica_set_def owned_candidates_def example_controlled
        example_matches example_key)
  have r2: "current_replica_set example_deployment ?two = None"
    by (simp add: current_replica_set_def owned_candidates_def example_controlled
        example_matches example_key)
  from spec [OF d4] spec [OF d2] r4 r2 c show ?thesis by simp
qed

section \<open>The comparison of templates leaves its arguments alone\<close>

lemma allocated_below:
  "wf_store h \<Longrightarrow> cells h a \<noteq> None \<Longrightarrow> a < next_addr h"
  unfolding wf_store_def by (meson not_le)

lemma DeepCopy_st_props:
  assumes "wf_store h" "DeepCopy_st h t = (t', h')"
  shows "wf_store h'" 
    and "\<And>a. a < next_addr h \<Longrightarrow> cells h' a = cells h a"
    and "next_addr h \<le> next_addr h'"
    and "deref h' (Labels_ref t') = deref h (Labels_ref t)"
    and "case Labels_ref t' of None \<Rightarrow> True
         | Some a \<Rightarrow> next_addr h \<le> a \<and> cells h' a \<noteq> None"
    and "PodSpec_ref t' = PodSpec_ref t"
  using assms
  by (auto simp: DeepCopy_st_def new_map_def wf_store_def deref_def Let_def
      split: option.splits if_splits)

lemma delete_st_props:
  assumes "wf_store h" "case ref of None \<Rightarrow> True | Some a \<Rightarrow> cells h a \<noteq> None"
  shows "wf_store (delete_st h ref k)"
    and "next_addr (delete_st h ref k) = next_addr h"
    and "\<And>a. Some a \<noteq> ref \<Longrightarrow> cells (delete_st h ref k) a = cells h a"
    and "deref (delete_st h ref k) ref = (deref h ref)(k := None)"
    and "\<And>a. cells h a \<noteq> None \<Longrightarrow> cells (delete_st h ref k) a \<noteq> None"
  using assms
  by (auto simp: delete_st_def wf_store_def deref_def split: option.splits if_splits)

lemma deref_cong: "(\<And>a. ref = Some a \<Longrightarrow> cells h' a = cells h a) \<Longrightarrow> deref h' ref = deref h ref"
  by (auto simp: deref_def split: option.splits)


lemma wf_fresh: "wf_store h \<Longrightarrow> cells h (next_addr h) = None" "wf_store h \<Longrightarrow> cells h (Suc (next_addr h)) = None"
  by (simp_all add: wf_store_def)

lemma wf_neq: "wf_store h \<Longrightarrow> cells h a = Some m \<Longrightarrow> a \<noteq> next_addr h \<and> a \<noteq> Suc (next_addr h) \<and> a < next_addr h"
  using allocated_below [of h a] by auto

lemma equalIgnoreHash_st_cases:
  assumes "wf_store h"
  shows "Labels_ref t1 = None \<Longrightarrow> Labels_ref t2 = None \<Longrightarrow>
           equalIgnoreHash_st h t1 t2 = (PodSpec_ref t1 = PodSpec_ref t2, h)"
    and "Labels_ref t1 = Some a \<Longrightarrow> cells h a = Some m \<Longrightarrow> Labels_ref t2 = None \<Longrightarrow>
           equalIgnoreHash_st h t1 t2 =
             (m(DefaultDeploymentUniqueLabelKey := None) = Map.empty \<and> PodSpec_ref t1 = PodSpec_ref t2,
              h\<lparr>cells := (cells h)(next_addr h \<mapsto> m(DefaultDeploymentUniqueLabelKey := None)),
                next_addr := Suc (next_addr h)\<rparr>)"
    and "Labels_ref t1 = None \<Longrightarrow> Labels_ref t2 = Some b \<Longrightarrow> cells h b = Some m' \<Longrightarrow>
           equalIgnoreHash_st h t1 t2 =
             (Map.empty = m'(DefaultDeploymentUniqueLabelKey := None) \<and> PodSpec_ref t1 = PodSpec_ref t2,
              h\<lparr>cells := (cells h)(next_addr h \<mapsto> m'(DefaultDeploymentUniqueLabelKey := None)),
                next_addr := Suc (next_addr h)\<rparr>)"
    and "Labels_ref t1 = Some a \<Longrightarrow> cells h a = Some m \<Longrightarrow>
         Labels_ref t2 = Some b \<Longrightarrow> cells h b = Some m' \<Longrightarrow>
           equalIgnoreHash_st h t1 t2 =
             (m(DefaultDeploymentUniqueLabelKey := None) = m'(DefaultDeploymentUniqueLabelKey := None)
                \<and> PodSpec_ref t1 = PodSpec_ref t2,
              h\<lparr>cells := (cells h)(next_addr h \<mapsto> m(DefaultDeploymentUniqueLabelKey := None),
                                   Suc (next_addr h) \<mapsto> m'(DefaultDeploymentUniqueLabelKey := None)),
                next_addr := Suc (Suc (next_addr h))\<rparr>)"
proof -
  show "Labels_ref t1 = None \<Longrightarrow> Labels_ref t2 = None \<Longrightarrow>
           equalIgnoreHash_st h t1 t2 = (PodSpec_ref t1 = PodSpec_ref t2, h)"
    by (simp add: equalIgnoreHash_st_def DeepCopy_st_def delete_st_def DeepEqual_st_def deref_def)
  show "Labels_ref t1 = Some a \<Longrightarrow> cells h a = Some m \<Longrightarrow> Labels_ref t2 = None \<Longrightarrow>
           equalIgnoreHash_st h t1 t2 =
             (m(DefaultDeploymentUniqueLabelKey := None) = Map.empty \<and> PodSpec_ref t1 = PodSpec_ref t2,
              h\<lparr>cells := (cells h)(next_addr h \<mapsto> m(DefaultDeploymentUniqueLabelKey := None)),
                next_addr := Suc (next_addr h)\<rparr>)"
    by (simp add: equalIgnoreHash_st_def DeepCopy_st_def new_map_def delete_st_def DeepEqual_st_def
        deref_def)
  show "Labels_ref t1 = None \<Longrightarrow> Labels_ref t2 = Some b \<Longrightarrow> cells h b = Some m' \<Longrightarrow>
           equalIgnoreHash_st h t1 t2 =
             (Map.empty = m'(DefaultDeploymentUniqueLabelKey := None) \<and> PodSpec_ref t1 = PodSpec_ref t2,
              h\<lparr>cells := (cells h)(next_addr h \<mapsto> m'(DefaultDeploymentUniqueLabelKey := None)),
                next_addr := Suc (next_addr h)\<rparr>)"
    by (simp add: equalIgnoreHash_st_def DeepCopy_st_def new_map_def delete_st_def DeepEqual_st_def
        deref_def)
  show "Labels_ref t1 = Some a \<Longrightarrow> cells h a = Some m \<Longrightarrow>
         Labels_ref t2 = Some b \<Longrightarrow> cells h b = Some m' \<Longrightarrow>
           equalIgnoreHash_st h t1 t2 =
             (m(DefaultDeploymentUniqueLabelKey := None) = m'(DefaultDeploymentUniqueLabelKey := None)
                \<and> PodSpec_ref t1 = PodSpec_ref t2,
              h\<lparr>cells := (cells h)(next_addr h \<mapsto> m(DefaultDeploymentUniqueLabelKey := None),
                                   Suc (next_addr h) \<mapsto> m'(DefaultDeploymentUniqueLabelKey := None)),
                next_addr := Suc (Suc (next_addr h))\<rparr>)"
    using wf_neq [OF assms, of b m']
    by (simp add: equalIgnoreHash_st_def DeepCopy_st_def new_map_def delete_st_def DeepEqual_st_def
        deref_def fun_upd_twist)
qed

lemma pure_equalIgnoreHash:
  "equalIgnoreHash (template_of h t1) (template_of h t2) \<longleftrightarrow>
     (deref h (Labels_ref t1))(DefaultDeploymentUniqueLabelKey := None) =
     (deref h (Labels_ref t2))(DefaultDeploymentUniqueLabelKey := None) \<and>
     PodSpec_ref t1 = PodSpec_ref t2"
  by (simp add: equalIgnoreHash_def DeepCopy_def DeepEqual_def delete_def template_of_def Let_def)

text \<open>
  C9. \<open>equalIgnoreHash\<close> does not change its arguments. On a well-formed store and two
  allocated templates, every cell that existed before the call has its content after the
  call (the call only adds cells, for the copies), so both templates, label maps included,
  read the same before and after; and the boolean is the comparison of the two templates
  with the \<open>pod-template-hash\<close> label removed on both sides.
\<close>

theorem equalIgnoreHash_st_frame:
  assumes "wf_store h" "allocated h t1" "allocated h t2"
  shows "(\<forall>a. a < next_addr h \<longrightarrow> cells (snd (equalIgnoreHash_st h t1 t2)) a = cells h a) \<and>
         template_of (snd (equalIgnoreHash_st h t1 t2)) t1 = template_of h t1 \<and>
         template_of (snd (equalIgnoreHash_st h t1 t2)) t2 = template_of h t2 \<and>
         fst (equalIgnoreHash_st h t1 t2) =
           equalIgnoreHash (template_of h t1) (template_of h t2)"
proof -
  let ?h' = "snd (equalIgnoreHash_st h t1 t2)"
  have frame: "cells ?h' a = cells h a" if "a < next_addr h" for a
  proof (cases "Labels_ref t1")
    case None
    note n1 = this
    show ?thesis
    proof (cases "Labels_ref t2")
      case None
      with n1 show ?thesis by (simp add: equalIgnoreHash_st_cases(1) [OF assms(1)])
    next
      case (Some b)
      with assms(3) obtain m' where "cells h b = Some m'" by (auto simp: allocated_def)
      with n1 Some that show ?thesis
        by (simp add: equalIgnoreHash_st_cases(3) [OF assms(1)])
    qed
  next
    case (Some a1)
    note s1 = this
    with assms(2) obtain m where m: "cells h a1 = Some m" by (auto simp: allocated_def)
    show ?thesis
    proof (cases "Labels_ref t2")
      case None
      with s1 m that show ?thesis
        by (simp add: equalIgnoreHash_st_cases(2) [OF assms(1)])
    next
      case (Some b)
      with assms(3) obtain m' where "cells h b = Some m'" by (auto simp: allocated_def)
      with s1 m Some that show ?thesis
        by (simp add: equalIgnoreHash_st_cases(4) [OF assms(1)])
    qed
  qed
  have below: "cells h a \<noteq> None \<Longrightarrow> a < next_addr h" for a
    using allocated_below [OF assms(1)] by simp
  have same: "deref ?h' (Labels_ref t) = deref h (Labels_ref t)" if "allocated h t"
    for t :: "'a PodTemplateSpec_ref"
    using that frame below by (auto simp: deref_def allocated_def split: option.splits)
  have res: "fst (equalIgnoreHash_st h t1 t2) =
           equalIgnoreHash (template_of h t1) (template_of h t2)"
  proof (cases "Labels_ref t1")
    case None
    note n1 = this
    show ?thesis
    proof (cases "Labels_ref t2")
      case None
      with n1 show ?thesis
        by (simp add: equalIgnoreHash_st_cases(1) [OF assms(1)] pure_equalIgnoreHash deref_def)
    next
      case (Some b)
      with assms(3) obtain m' where "cells h b = Some m'" by (auto simp: allocated_def)
      with n1 Some show ?thesis
        by (simp add: equalIgnoreHash_st_cases(3) [OF assms(1)] pure_equalIgnoreHash deref_def)
    qed
  next
    case (Some a1)
    note s1 = this
    with assms(2) obtain m where m: "cells h a1 = Some m" by (auto simp: allocated_def)
    show ?thesis
    proof (cases "Labels_ref t2")
      case None
      with s1 m show ?thesis
        by (simp add: equalIgnoreHash_st_cases(2) [OF assms(1)] pure_equalIgnoreHash deref_def)
    next
      case (Some b)
      with assms(3) obtain m' where "cells h b = Some m'" by (auto simp: allocated_def)
      with s1 m Some show ?thesis
        by (simp add: equalIgnoreHash_st_cases(4) [OF assms(1)] pure_equalIgnoreHash deref_def)
    qed
  qed
  from frame same [OF assms(2)] same [OF assms(3)] res show ?thesis
    by (simp add: template_of_def)
qed

lemma example_store_wf: "wf_store example_store"
  by (simp add: wf_store_def example_store_def)

lemma example_store_allocated:
  "allocated example_store (example_template 0)" "allocated example_store (example_template 1)"
  by (simp_all add: allocated_def example_store_def example_template_def)

theorem equalIgnoreHash_st_frame_witness:
  "wf_store example_store \<and> allocated example_store (example_template 0) \<and>
   allocated example_store (example_template 1) \<and>
   fst (equalIgnoreHash_st example_store (example_template 0) (example_template 1)) \<and>
   cells (snd (equalIgnoreHash_st example_store (example_template 0) (example_template 1))) 0 =
     Some [''app'' \<mapsto> ''web'', ''pod-template-hash'' \<mapsto> ''5d4f''] \<and>
   cells (snd (equalIgnoreHash_st example_store (example_template 0) (example_template 1))) 1 =
     Some [''app'' \<mapsto> ''web'']"
proof -
  note t = equalIgnoreHash_st_frame [OF example_store_wf example_store_allocated]
  have eq: "equalIgnoreHash (template_of example_store (example_template 0))
              (template_of example_store (example_template 1))"
    by (simp add: pure_equalIgnoreHash example_store_def example_template_def deref_def
        DefaultDeploymentUniqueLabelKey_def fun_upd_twist)
  have c: "cells example_store 0 = Some [''app'' \<mapsto> ''web'', ''pod-template-hash'' \<mapsto> ''5d4f'']"
    "cells example_store 1 = Some [''app'' \<mapsto> ''web'']" "next_addr example_store = 2"
    by (simp_all add: example_store_def)
  let ?h' = "snd (equalIgnoreHash_st example_store (example_template 0) (example_template 1))"
  from t have frame: "\<forall>a. a < next_addr example_store \<longrightarrow> cells ?h' a = cells example_store a"
    and res: "fst (equalIgnoreHash_st example_store (example_template 0) (example_template 1)) =
      equalIgnoreHash (template_of example_store (example_template 0))
              (template_of example_store (example_template 1))"
    by blast+
  from frame c(3) have "cells ?h' 0 = cells example_store 0" "cells ?h' 1 = cells example_store 1"
    by simp_all
  with c have "cells ?h' 0 = Some [''app'' \<mapsto> ''web'', ''pod-template-hash'' \<mapsto> ''5d4f'']"
    "cells ?h' 1 = Some [''app'' \<mapsto> ''web'']"
    by simp_all
  moreover from res eq
  have "fst (equalIgnoreHash_st example_store (example_template 0) (example_template 1))"
    by simp
  ultimately show ?thesis
    using example_store_wf example_store_allocated by blast
qed

section \<open>The HTTP trigger\<close>

lemma sendError_new_writer:
  "sendError new_writer e =
     \<lparr> rw_status = Some 500, rw_body = ''Internal Server Error'' @ newline @ newline @ e @ newline \<rparr>"
  by (simp add: sendError_def http_Error_def Write_def WriteHeader_def StatusText_def new_writer_def)

text \<open>
  C2 (what the handler does where the claim fails). After an error the handler writes
  the response and goes on. When the model is decoded but the construction of the callback
  handler fails, the handler still starts the run, with the handler it was given
  (\<^verbatim>\<open>nil\<close>), and returns; the response carries the construction error, and the
  error of the run after it when the run fails too. When the extraction of the version or
  the decoding fails, the response is written and the handler then panics on the
  \<^verbatim>\<open>nil\<close> model; no run is started. The response to an error, on a writer nothing
  was written to, has code 500 and the status text, a blank line and the error text as its
  body, with a final newline.
\<close>

theorem handler_continues_after_error:
  "(model ext req = (Some m, None) \<longrightarrow>
    newRemoteCallbackHandler ext (CallbackURL m) (debug r) = (cb, Some e) \<longrightarrow>
      started (handler ext r w req) = [(m, cb)] \<and>
      completion (handler ext r w req) = Returned \<and>
      response (handler ext r w req) =
        (case runner_Run ext r m cb of
           None \<Rightarrow> sendError w e
         | Some e' \<Rightarrow> sendError (sendError w e) e')) \<and>
   (model ext req = (None, Some e) \<longrightarrow>
      handler ext r w req =
        \<lparr> response = sendError w e, started = [], completion = Panicked \<rparr>) \<and>
   sendError new_writer e =
     \<lparr> rw_status = Some 500,
       rw_body = ''Internal Server Error'' @ newline @ newline @ e @ newline \<rparr>"
  by (simp add: handler_def start_def sendError_new_writer Let_def split: option.splits)

lemma example_model_ok:
  "model example_collaborators (example_request ''1'' []) =
     (Some \<lparr> CallbackURL = [], CallbackFct = None, Version = [] \<rparr>, None)"
  by (simp add: model_def example_collaborators_def example_request_def paramContractVersion_def
      modelForVersion_def)

lemma example_model_fails:
  "model example_collaborators (example_request [] []) =
     (None, Some ''contract version cannot be empty'')"
  by (simp add: model_def example_collaborators_def example_request_def paramContractVersion_def
      modelForVersion_def)

theorem handler_continues_after_error_witness:
  "started (handler example_collaborators NewComponentReconciler new_writer
              (example_request ''1'' [])) =
     [(\<lparr> CallbackURL = [], CallbackFct = None, Version = [] \<rparr>, None)] \<and>
   completion (handler example_collaborators NewComponentReconciler new_writer
              (example_request ''1'' [])) = Returned \<and>
   response (handler example_collaborators NewComponentReconciler new_writer
              (example_request ''1'' [])) =
     \<lparr> rw_status = Some 500,
       rw_body = ''Internal Server Error'' @ newline @ newline @ ''callback URL is empty''
                 @ newline \<rparr> \<and>
   handler example_collaborators NewComponentReconciler new_writer (example_request [] []) =
     \<lparr> response =
         \<lparr> rw_status = Some 500,
           rw_body = ''Internal Server Error'' @ newline @ newline @
                     ''contract version cannot be empty'' @ newline \<rparr>,
       started = [], completion = Panicked \<rparr>"
proof -
  let ?m = "\<lparr> CallbackURL = [], CallbackFct = None, Version = [] \<rparr>"
  have cb: "newRemoteCallbackHandler example_collaborators [] dbg =
              (None, Some ''callback URL is empty'')" for dbg
    by (simp add: example_collaborators_def)
  have run: "runner_Run example_collaborators c m' h = None" for c m' h
    by (simp add: example_collaborators_def)
  from handler_continues_after_error
    [of example_collaborators "example_request ''1'' []" ?m NewComponentReconciler
        None "''callback URL is empty''" new_writer]
    handler_continues_after_error
    [of example_collaborators "example_request [] []" ?m NewComponentReconciler
        None "''contract version cannot be empty''" new_writer]
  show ?thesis
    by (simp add: example_model_ok example_model_fails cb run sendError_new_writer)
qed

section \<open>The retry law\<close>

lemma pipeline_no_Running:
  "filter is_Running_delivery (fst (pipeline r k v)) = []"
  by (auto simp: pipeline_def run_action_def split: option.splits prod.splits)

lemma attempt_failing:
  assumes "snd (pipeline r k v) \<noteq> None"
  shows "attempt r cbh tr k v =
           (Delivered Running (cbh Running) # fst (pipeline r k v), snd (pipeline r k v))"
  using assms by (auto simp: attempt_def split: prod.splits option.splits)

lemma attempts_loop_failing:
  assumes "\<forall>k. snd (pipeline r k v) \<noteq> None" "k + Suc n = N"
  shows "attempts (attempts_loop r cbh tr v k c (Suc n)) = N \<and>
         returned (attempts_loop r cbh tr v k c (Suc n)) =
           Some (RetriesExhaustedError (snd (pipeline r N v))) \<and>
         events (attempts_loop r cbh tr v k c (Suc n)) =
           concat (map (attempt_events r cbh v N) [Suc k ..< Suc N]) @
             [Delivered Failed (cbh Failed)]"
  using assms(2)
proof (induction n arbitrary: k c)
  case 0
  from assms(1) obtain c' where c': "snd (pipeline r (Suc k) v) = Some c'" by auto
  with 0 show ?case
    by (simp add: attempt_failing attempt_events_def)
next
  case (Suc n)
  from assms(1) obtain c' where c': "snd (pipeline r (Suc k) v) = Some c'" by auto
  have N: "Suc k + Suc n = N" using Suc.prems by simp
  have lt: "Suc k < N" using Suc.prems by simp
  have up: "[Suc k ..< N] = Suc k # [Suc (Suc k) ..< N]"
    using lt by (simp add: upt_conv_Cons)
  have step: "attempts_loop r cbh tr v k c (Suc (Suc n)) =
      (attempts_loop r cbh tr v (Suc k) (Some c') (Suc n))
        \<lparr>events := Delivered Running (cbh Running) # fst (pipeline r (Suc k) v) @
           [Delayed (retryDelay r)] @
           events (attempts_loop r cbh tr v (Suc k) (Some c') (Suc n))\<rparr>"
    by (subst attempts_loop.simps(2))
      (simp add: attempt_failing [OF assms(1) [rule_format]] c' Let_def
        del: attempts_loop.simps)
  from Suc.IH [OF N, of "Some c'"] lt show ?case
    unfolding step by (simp add: up attempt_events_def del: attempts_loop.simps)
qed

lemma count_Running_attempts:
  "length (filter is_Running_delivery (concat (map (attempt_events r cbh v N) is))) = length is"
  by (induction "is") (simp_all add: attempt_events_def pipeline_no_Running)


lemma pipeline_validate: "pipeline (validate r) k v = pipeline r k v"
  unfolding pipeline_def validate_actions ..

lemma attempt_events_validate:
  "attempt_events (validate r) cbh v n i =
     Delivered Running (cbh Running) # fst (pipeline r i v) @
       (if i < n then [Delayed (retryDelay (validate r))] else [])"
  by (simp add: attempt_events_def pipeline_validate)

text \<open>
  C1. When the action pipeline fails at every attempt and \<open>maxRetries\<close> is a positive
  \<open>n\<close>, one run makes exactly \<open>n\<close> attempts; its events are, for each attempt from 1
  to \<open>n\<close> in turn, one delivery of \<open>Running\<close>, then the actions of that attempt, then the
  retry delay when an attempt remains, and at the end the delivery of the failure status;
  so \<open>Running\<close> is delivered exactly \<open>n\<close> times, each time right before the work of an
  attempt; and the run returns the error of exhausted retries that wraps the failure of
  attempt \<open>n\<close>.
\<close>

theorem Run_retry_law:
  assumes "\<forall>k. snd (pipeline r k (Version m)) \<noteq> None" and "0 <s maxRetries r"
  shows "1 \<le> nat (sint (maxRetries r)) \<and>
         attempts (Run r tr m cbh) = nat (sint (maxRetries r)) \<and>
         returned (Run r tr m cbh) =
           Some (RetriesExhaustedError
                  (snd (pipeline r (nat (sint (maxRetries r))) (Version m)))) \<and>
         events (Run r tr m cbh) =
           concat (map (attempt_events (validate r) cbh (Version m) (nat (sint (maxRetries r))))
                     [1 ..< Suc (nat (sint (maxRetries r)))]) @
             [Delivered Failed (cbh Failed)] \<and>
         length (filter is_Running_delivery (events (Run r tr m cbh))) =
           nat (sint (maxRetries r))"
proof -
  let ?N = "nat (sint (maxRetries r))"
  from assms(2) have pos: "1 \<le> ?N" by (simp add: word_sless_alt)
  then obtain n where n: "?N = Suc n" by (cases ?N) auto
  from assms(2) have mr: "maxRetries (validate r) = maxRetries r"
    by (simp add: validate_fields sle_zero_iff)
  have fails: "\<forall>k. snd (pipeline (validate r) k (Version m)) \<noteq> None"
    using assms(1) by (simp add: pipeline_validate)
  have run: "Run r tr m cbh = attempts_loop (validate r) cbh tr (Version m) 0 None (Suc n)"
    by (simp add: Run_def Let_def mr n del: attempts_loop.simps)
  from attempts_loop_failing [OF fails, of 0 n ?N cbh tr None] n
  have loop: "attempts (Run r tr m cbh) = ?N"
    "returned (Run r tr m cbh) = Some (RetriesExhaustedError (snd (pipeline r ?N (Version m))))"
    "events (Run r tr m cbh) =
       concat (map (attempt_events (validate r) cbh (Version m) ?N) [1 ..< Suc ?N]) @
         [Delivered Failed (cbh Failed)]"
    unfolding run by (simp_all add: pipeline_validate del: attempts_loop.simps)
  have "length (filter is_Running_delivery (events (Run r tr m cbh))) = ?N"
    unfolding loop(3) using count_Running_attempts [of "validate r" cbh "Version m" ?N "[1 ..< Suc ?N]"]
    by simp
  with pos loop show ?thesis by blast
qed

theorem Run_retry_law_witness:
  "attempts (Run failing_reconciler ready_tracker example_model silent_handler) = 2 \<and>
   returned (Run failing_reconciler ready_tracker example_model silent_handler) =
     Some (RetriesExhaustedError (Some (ActionError Install ''install failed''))) \<and>
   events (Run failing_reconciler ready_tracker example_model silent_handler) =
     [Delivered Running None, Invoked Install 1, Delayed (30 * Second),
      Delivered Running None, Invoked Install 2, Delivered Failed None]"
proof -
  have p: "pipeline failing_reconciler k v =
             ([Invoked Install k], Some (ActionError Install ''install failed''))" for k v
    by (simp add: pipeline_def run_action_def failing_reconciler_def NewComponentReconciler_def)
  have mr: "maxRetries failing_reconciler = 2"
    by (simp add: failing_reconciler_def NewComponentReconciler_def)
  have rd: "retryDelay (validate failing_reconciler) = 30 * Second"
    by (simp add: validate_fields failing_reconciler_def NewComponentReconciler_def
        defaultRetryDelay_def)
  have up: "[Suc 0 ..< 3] = [Suc 0, 2]"
    by code_simp
  from Run_retry_law [of failing_reconciler example_model ready_tracker silent_handler]
  show ?thesis
    by (simp add: p mr rd up attempt_events_validate silent_handler_def word_sless_alt)
qed

end
